theory Spec2Isabelle
  imports Main "HOL-Library.AList" "HOL-Library.Sublist"
begin

section \<open>Progress tracking (\<^verbatim>\<open>pytorch_lightning/trainer/progress.py\<close>)\<close>

text \<open>
  The Python objects are modelled as records and every method as a function from the
  object before the call to the object after it. Python's unbounded integers are
  \<^typ>\<open>int\<close>; an \<^verbatim>\<open>Optional[int]\<close> counter is an \<^typ>\<open>int option\<close>, with
  \<^term>\<open>None\<close> for the ``unused'' sentinel. A raised exception is a value of type
  \<open>error\<close>.
\<close>

datatype error =
    AttributeError string
  | IndexError

subsection \<open>Tracker\<close>

text \<open>
  The four dataclass fields, and the instance attributes a caller may add beyond them
  (the instance dictionary keeps its insertion order, so they are an association list).
  Attribute names are ordinary identifiers: names of methods and of Python's special
  attributes are outside the model.
\<close>

record Tracker =
  ready :: "int option"
  started :: "int option"
  processed :: "int option"
  completed :: "int option"
  attrs :: "(string \<times> int option) list"

text \<open>The generated constructor; every argument defaults to \<^verbatim>\<open>0\<close> at the call site.\<close>

definition Tracker_init :: "int option \<Rightarrow> int option \<Rightarrow> int option \<Rightarrow> int option \<Rightarrow> Tracker" where
  "Tracker_init r s p c = \<lparr>ready = r, started = s, processed = p, completed = c, attrs = []\<rparr>"

definition Tracker_default :: Tracker where
  "Tracker_default = Tracker_init (Some 0) (Some 0) (Some 0) (Some 0)"

text \<open>\<^verbatim>\<open>Tracker.reset\<close>: four tests in sequence, each on the object as it is by then.\<close>

definition reset :: "Tracker \<Rightarrow> Tracker" where
  "reset self =
     (let s1 = (if ready self \<noteq> None then self\<lparr>ready := Some 0\<rparr> else self);
          s2 = (if started s1 \<noteq> None then s1\<lparr>started := Some 0\<rparr> else s1);
          s3 = (if processed s2 \<noteq> None then s2\<lparr>processed := Some 0\<rparr> else s2);
          s4 = (if completed s3 \<noteq> None then s3\<lparr>completed := Some 0\<rparr> else s3)
      in s4)"

text \<open>
  \<^verbatim>\<open>getattr(self, key, default)\<close>: the value of the attribute, or the default when the
  instance has no attribute of that name.
\<close>

definition getattr :: "Tracker \<Rightarrow> string \<Rightarrow> int option \<Rightarrow> int option" where
  "getattr self key dflt =
     (if key = ''ready'' then ready self
      else if key = ''started'' then started self
      else if key = ''processed'' then processed self
      else if key = ''completed'' then completed self
      else (case map_of (attrs self) key of Some v \<Rightarrow> v | None \<Rightarrow> dflt))"

text \<open>\<^verbatim>\<open>super().__setattr__(key, value)\<close>: the unguarded write of \<^verbatim>\<open>object\<close>.\<close>

definition object_setattr :: "Tracker \<Rightarrow> string \<Rightarrow> int option \<Rightarrow> Tracker" where
  "object_setattr self key v =
     (if key = ''ready'' then self\<lparr>ready := v\<rparr>
      else if key = ''started'' then self\<lparr>started := v\<rparr>
      else if key = ''processed'' then self\<lparr>processed := v\<rparr>
      else if key = ''completed'' then self\<lparr>completed := v\<rparr>
      else self\<lparr>attrs := AList.update key v (attrs self)\<rparr>)"

definition unused_message :: "string \<Rightarrow> string" where
  "unused_message key = ''The '' @ [CHR 0x27] @ key @ [CHR 0x27] @ '' attribute is meant to be unused''"

text \<open>
  \<^verbatim>\<open>Tracker.__setattr__\<close>. The result pairs the outcome of the call (the exception, or
  a normal return) with the object after it.
\<close>

definition setattr :: "Tracker \<Rightarrow> string \<Rightarrow> int option \<Rightarrow> (error + unit) \<times> Tracker" where
  "setattr self key v =
     (if getattr self key (Some 0) = None
      then (Inl (AttributeError (unused_message key)), self)
      else (Inr (), object_setattr self key v))"

subsection \<open>Progress\<close>

text \<open>
  A Progress holds two Trackers. As values they are independent of each other, which is
  how every constructor of the source builds them (\<^verbatim>\<open>default_factory=Tracker\<close>, and two
  calls of \<^verbatim>\<open>Tracker(**kwargs)\<close> in \<^verbatim>\<open>from_defaults\<close>); the section on objects and
  references treats a Progress whose two fields are the same Tracker.
\<close>

record Progress =
  total :: Tracker
  current :: Tracker

definition Progress_default :: Progress where
  "Progress_default = \<lparr>total = Tracker_default, current = Tracker_default\<rparr>"

text \<open>
  The four increments. \<^verbatim>\<open>self.total.ready += 1\<close> reads the counter and writes it back
  through \<^verbatim>\<open>Tracker.__setattr__\<close>; the guard of the write cannot fire, since the
  method has returned before when the counter is \<^verbatim>\<open>None\<close>.
\<close>

definition increment_ready :: "Progress \<Rightarrow> Progress" where
  "increment_ready self =
     (case (ready (total self), ready (current self)) of
        (Some a, Some b) \<Rightarrow>
          self\<lparr>total := (total self)\<lparr>ready := Some (a + 1)\<rparr>,
               current := (current self)\<lparr>ready := Some (b + 1)\<rparr>\<rparr>
      | _ \<Rightarrow> self)"

definition increment_started :: "Progress \<Rightarrow> Progress" where
  "increment_started self =
     (case (started (total self), started (current self)) of
        (Some a, Some b) \<Rightarrow>
          self\<lparr>total := (total self)\<lparr>started := Some (a + 1)\<rparr>,
               current := (current self)\<lparr>started := Some (b + 1)\<rparr>\<rparr>
      | _ \<Rightarrow> self)"

definition increment_processed :: "Progress \<Rightarrow> Progress" where
  "increment_processed self =
     (case (processed (total self), processed (current self)) of
        (Some a, Some b) \<Rightarrow>
          self\<lparr>total := (total self)\<lparr>processed := Some (a + 1)\<rparr>,
               current := (current self)\<lparr>processed := Some (b + 1)\<rparr>\<rparr>
      | _ \<Rightarrow> self)"

definition increment_completed :: "Progress \<Rightarrow> Progress" where
  "increment_completed self =
     (case (completed (total self), completed (current self)) of
        (Some a, Some b) \<Rightarrow>
          self\<lparr>total := (total self)\<lparr>completed := Some (a + 1)\<rparr>,
               current := (current self)\<lparr>completed := Some (b + 1)\<rparr>\<rparr>
      | _ \<Rightarrow> self)"

text \<open>
  \<^verbatim>\<open>Progress.from_defaults(**kwargs)\<close>: both trackers are built from the same keyword
  arguments; a keyword that is not given is passed here as its default \<^verbatim>\<open>0\<close>.
\<close>

definition from_defaults :: "int option \<Rightarrow> int option \<Rightarrow> int option \<Rightarrow> int option \<Rightarrow> Progress" where
  "from_defaults r s p c = \<lparr>total = Tracker_init r s p c, current = Tracker_init r s p c\<rparr>"

text \<open>
  The four counters by name, to state a property of ``the field F'' once:
  \<open>counter_of\<close> reads the counter, \<open>with_counter\<close> is the tracker with that counter
  replaced and everything else as it was, \<open>increment\<close> is the method
  \<^verbatim>\<open>increment_<name>\<close>.
\<close>

datatype counter = Ready | Started | Processed | Completed

fun counter_of :: "counter \<Rightarrow> Tracker \<Rightarrow> int option" where
  "counter_of Ready t = ready t"
| "counter_of Started t = started t"
| "counter_of Processed t = processed t"
| "counter_of Completed t = completed t"

fun with_counter :: "counter \<Rightarrow> int option \<Rightarrow> Tracker \<Rightarrow> Tracker" where
  "with_counter Ready v t = t\<lparr>ready := v\<rparr>"
| "with_counter Started v t = t\<lparr>started := v\<rparr>"
| "with_counter Processed v t = t\<lparr>processed := v\<rparr>"
| "with_counter Completed v t = t\<lparr>completed := v\<rparr>"

fun counter_name :: "counter \<Rightarrow> string" where
  "counter_name Ready = ''ready''"
| "counter_name Started = ''started''"
| "counter_name Processed = ''processed''"
| "counter_name Completed = ''completed''"

fun increment :: "counter \<Rightarrow> Progress \<Rightarrow> Progress" where
  "increment Ready = increment_ready"
| "increment Started = increment_started"
| "increment Processed = increment_processed"
| "increment Completed = increment_completed"

subsection \<open>OptimizationProgress\<close>

record OptimizationProgress =
  optimizer :: Progress
  scheduler :: Progress
  zero_grad :: Progress

text \<open>
  The field defaults: \<^verbatim>\<open>Progress.from_defaults(processed=None)\<close> for the optimizer
  and for zero_grad, \<^verbatim>\<open>Progress.from_defaults(started=None, processed=None)\<close> for the
  scheduler.
\<close>

definition OptimizationProgress_default :: OptimizationProgress where
  "OptimizationProgress_default =
     \<lparr>optimizer = from_defaults (Some 0) (Some 0) None (Some 0),
      scheduler = from_defaults (Some 0) None None (Some 0),
      zero_grad = from_defaults (Some 0) (Some 0) None (Some 0)\<rparr>"

text \<open>
  The two properties return the attribute they read. Reading an attribute that holds
  \<^verbatim>\<open>None\<close> raises nothing, so the result is always a normal return.
\<close>

definition optimizer_steps :: "OptimizationProgress \<Rightarrow> error + int option" where
  "optimizer_steps self = Inr (completed (total (optimizer self)))"

definition scheduler_steps :: "OptimizationProgress \<Rightarrow> error + int option" where
  "scheduler_steps self = Inr (completed (total (scheduler self)))"

subsection \<open>BatchLoopProgress\<close>

record BatchLoopProgress =
  batch :: Progress
  optimizer_idx :: "int option"
  num_optimizers :: int
  optimizations :: "OptimizationProgress list"

text \<open>
  The constructor with \<^verbatim>\<open>__post_init__\<close>: one copy of a new OptimizationProgress for
  each element of \<^verbatim>\<open>range(num_optimizers)\<close>, which is empty when the number is
  negative. In this model of values a copy is the value itself; the section on objects and
  references models the copies as objects.
\<close>

definition BatchLoopProgress_init :: "Progress \<Rightarrow> int option \<Rightarrow> int \<Rightarrow> BatchLoopProgress" where
  "BatchLoopProgress_init b idx n =
     \<lparr>batch = b, optimizer_idx = idx, num_optimizers = n,
      optimizations = map (\<lambda>_. OptimizationProgress_default) [0..<nat n]\<rparr>"

definition BatchLoopProgress_default :: BatchLoopProgress where
  "BatchLoopProgress_default = BatchLoopProgress_init Progress_default (Some 0) 1"

text \<open>
  The body of the loop \<^verbatim>\<open>for opt in ...optimizations\<close>, which both
  \<^verbatim>\<open>reset_on_batch\<close> methods share: the three \<open>current\<close> trackers of one slot are
  reset.
\<close>

definition reset_current :: "Progress \<Rightarrow> Progress" where
  "reset_current p = p\<lparr>current := reset (current p)\<rparr>"

definition reset_opt :: "OptimizationProgress \<Rightarrow> OptimizationProgress" where
  "reset_opt opt =
     opt\<lparr>optimizer := reset_current (optimizer opt),
         scheduler := reset_current (scheduler opt),
         zero_grad := reset_current (zero_grad opt)\<rparr>"

text \<open>\<^verbatim>\<open>BatchLoopProgress.reset_on_batch\<close>: the loop, then \<^verbatim>\<open>self.batch.current.reset()\<close>.\<close>

definition BatchLoopProgress_reset_on_batch :: "BatchLoopProgress \<Rightarrow> BatchLoopProgress" where
  "BatchLoopProgress_reset_on_batch self =
     (let s1 = self\<lparr>optimizations := map reset_opt (optimizations self)\<rparr>
      in s1\<lparr>batch := reset_current (batch s1)\<rparr>)"

subsection \<open>LoopProgress and TrainingLoopProgress\<close>

record LoopProgress =
  epoch :: Progress
  batch :: Progress

definition LoopProgress_default :: LoopProgress where
  "LoopProgress_default = \<lparr>epoch = Progress_default, batch = Progress_default\<rparr>"

text \<open>\<^verbatim>\<open>LoopProgress.reset_on_epoch\<close>: \<open>batch.current\<close>, then \<open>epoch.current\<close>.\<close>

definition LoopProgress_reset_on_epoch :: "LoopProgress \<Rightarrow> LoopProgress" where
  "LoopProgress_reset_on_epoch self =
     (let s1 = self\<lparr>batch := reset_current (batch self)\<rparr>
      in s1\<lparr>epoch := reset_current (epoch s1)\<rparr>)"

definition LoopProgress_increment_epoch_completed :: "LoopProgress \<Rightarrow> LoopProgress" where
  "LoopProgress_increment_epoch_completed self =
     LoopProgress_reset_on_epoch (self\<lparr>epoch := increment_completed (epoch self)\<rparr>)"

text \<open>
  The subclass: the fields \<open>epoch\<close> and \<open>batch\<close> of LoopProgress, and \<open>batch_loop\<close>.
  It overrides the three methods, so the methods of LoopProgress above run on plain
  LoopProgress objects only.
\<close>

record TrainingLoopProgress = LoopProgress +
  batch_loop :: BatchLoopProgress

definition TrainingLoopProgress_default :: TrainingLoopProgress where
  "TrainingLoopProgress_default =
     \<lparr>epoch = Progress_default, batch = Progress_default,
      batch_loop = BatchLoopProgress_default\<rparr>"

text \<open>
  \<^verbatim>\<open>TrainingLoopProgress.reset_on_batch\<close>. The field \<open>optimizations\<close> is a tuple, set
  by the constructor, so the test \<^verbatim>\<open>is not None\<close> that guards the loop holds.
\<close>

definition TrainingLoopProgress_reset_on_batch :: "TrainingLoopProgress \<Rightarrow> TrainingLoopProgress" where
  "TrainingLoopProgress_reset_on_batch self =
     self\<lparr>batch_loop :=
       (batch_loop self)\<lparr>optimizations := map reset_opt (optimizations (batch_loop self))\<rparr>\<rparr>"

text \<open>\<^verbatim>\<open>TrainingLoopProgress.reset_on_epoch\<close>: \<^verbatim>\<open>self.batch_loop.reset_on_batch()\<close>.\<close>

definition TrainingLoopProgress_reset_on_epoch :: "TrainingLoopProgress \<Rightarrow> TrainingLoopProgress" where
  "TrainingLoopProgress_reset_on_epoch self =
     self\<lparr>batch_loop := BatchLoopProgress_reset_on_batch (batch_loop self)\<rparr>"

definition TrainingLoopProgress_increment_epoch_completed ::
    "TrainingLoopProgress \<Rightarrow> TrainingLoopProgress" where
  "TrainingLoopProgress_increment_epoch_completed self =
     TrainingLoopProgress_reset_on_epoch (self\<lparr>epoch := increment_completed (epoch self)\<rparr>)"

subsection \<open>FitLoopProgress\<close>

record FitLoopProgress =
  train :: TrainingLoopProgress
  val :: LoopProgress

definition FitLoopProgress_default :: FitLoopProgress where
  "FitLoopProgress_default = \<lparr>train = TrainingLoopProgress_default, val = LoopProgress_default\<rparr>"

text \<open>The three Progress fields of an OptimizationProgress by name.\<close>

datatype part = Optimizer | Scheduler | ZeroGrad

fun part_of :: "part \<Rightarrow> OptimizationProgress \<Rightarrow> Progress" where
  "part_of Optimizer opt = optimizer opt"
| "part_of Scheduler opt = scheduler opt"
| "part_of ZeroGrad opt = zero_grad opt"

subsection \<open>Writes and resets of a Tracker\<close>

text \<open>
  A caller may write an attribute or reset the tracker, in any order; a write that
  raises is caught and the run goes on with the object as the failed call left it.
\<close>

datatype tracker_op = Write string "int option" | Reset

fun tracker_step :: "Tracker \<Rightarrow> tracker_op \<Rightarrow> Tracker" where
  "tracker_step T (Write key v) = snd (setattr T key v)"
| "tracker_step T Reset = reset T"

definition tracker_run :: "tracker_op list \<Rightarrow> Tracker \<Rightarrow> Tracker" where
  "tracker_run ops T = foldl tracker_step T ops"

text \<open>A write that passes an integer, as the annotation \<^verbatim>\<open>value: int\<close> asks.\<close>

fun int_valued :: "tracker_op \<Rightarrow> bool" where
  "int_valued (Write key v) = (v \<noteq> None)"
| "int_valued Reset = True"

subsection \<open>The public operations as a step function\<close>

text \<open>
  An operation names the object it is called on. A slot of \<open>optimizations\<close> is reached
  by its index; an index beyond the tuple raises \<^verbatim>\<open>IndexError\<close>. \<open>fit_run\<close> stops at
  the first exception.
\<close>

fun with_part :: "part \<Rightarrow> Progress \<Rightarrow> OptimizationProgress \<Rightarrow> OptimizationProgress" where
  "with_part Optimizer p opt = opt\<lparr>optimizer := p\<rparr>"
| "with_part Scheduler p opt = opt\<lparr>scheduler := p\<rparr>"
| "with_part ZeroGrad p opt = opt\<lparr>zero_grad := p\<rparr>"

datatype place = TrainEpoch | TrainBatch | BatchLoopBatch | Slot nat part | ValEpoch | ValBatch

datatype fit_op =
    Increment place counter
  | TrainIncrementEpochCompleted
  | TrainResetOnEpoch
  | TrainResetOnBatch
  | BatchLoopResetOnBatch
  | ValIncrementEpochCompleted
  | ValResetOnEpoch

fun fit_step :: "FitLoopProgress \<Rightarrow> fit_op \<Rightarrow> error + FitLoopProgress" where
  "fit_step s (Increment TrainEpoch F) =
     Inr (s\<lparr>train := (train s)\<lparr>epoch := increment F (epoch (train s))\<rparr>\<rparr>)"
| "fit_step s (Increment TrainBatch F) =
     Inr (s\<lparr>train := (train s)\<lparr>LoopProgress.batch := increment F (LoopProgress.batch (train s))\<rparr>\<rparr>)"
| "fit_step s (Increment BatchLoopBatch F) =
     Inr (s\<lparr>train := (train s)\<lparr>batch_loop := (batch_loop (train s))
            \<lparr>BatchLoopProgress.batch :=
               increment F (BatchLoopProgress.batch (batch_loop (train s)))\<rparr>\<rparr>\<rparr>)"
| "fit_step s (Increment (Slot i q) F) =
     (let opts = optimizations (batch_loop (train s)) in
      if i < length opts
      then Inr (s\<lparr>train := (train s)\<lparr>batch_loop := (batch_loop (train s))
             \<lparr>optimizations :=
                opts[i := with_part q (increment F (part_of q (opts ! i))) (opts ! i)]\<rparr>\<rparr>\<rparr>)
      else Inl IndexError)"
| "fit_step s (Increment ValEpoch F) =
     Inr (s\<lparr>val := (val s)\<lparr>epoch := increment F (epoch (val s))\<rparr>\<rparr>)"
| "fit_step s (Increment ValBatch F) =
     Inr (s\<lparr>val := (val s)\<lparr>LoopProgress.batch := increment F (LoopProgress.batch (val s))\<rparr>\<rparr>)"
| "fit_step s TrainIncrementEpochCompleted =
     Inr (s\<lparr>train := TrainingLoopProgress_increment_epoch_completed (train s)\<rparr>)"
| "fit_step s TrainResetOnEpoch = Inr (s\<lparr>train := TrainingLoopProgress_reset_on_epoch (train s)\<rparr>)"
| "fit_step s TrainResetOnBatch = Inr (s\<lparr>train := TrainingLoopProgress_reset_on_batch (train s)\<rparr>)"
| "fit_step s BatchLoopResetOnBatch =
     Inr (s\<lparr>train := (train s)\<lparr>batch_loop := BatchLoopProgress_reset_on_batch (batch_loop (train s))\<rparr>\<rparr>)"
| "fit_step s ValIncrementEpochCompleted =
     Inr (s\<lparr>val := LoopProgress_increment_epoch_completed (val s)\<rparr>)"
| "fit_step s ValResetOnEpoch = Inr (s\<lparr>val := LoopProgress_reset_on_epoch (val s)\<rparr>)"

fun fit_run :: "FitLoopProgress \<Rightarrow> fit_op list \<Rightarrow> error + FitLoopProgress" where
  "fit_run s [] = Inr s"
| "fit_run s (x # xs) = (case fit_step s x of Inl e \<Rightarrow> Inl e | Inr s' \<Rightarrow> fit_run s' xs)"

fun is_reset :: "fit_op \<Rightarrow> bool" where
  "is_reset TrainResetOnEpoch = True"
| "is_reset TrainResetOnBatch = True"
| "is_reset BatchLoopResetOnBatch = True"
| "is_reset ValResetOnEpoch = True"
| "is_reset _ = False"

text \<open>
  Orders on counters and trackers: \<open>counter_le\<close> holds when the enabled state is the same
  and the value has not decreased, \<open>counter_inc\<close> when the counter is as it was or one
  more. \<open>totals_rel R\<close> relates two states when \<open>R\<close> relates every \<open>total\<close> tracker of
  the first to the same tracker of the second, slot by slot.
\<close>

definition counter_le :: "int option \<Rightarrow> int option \<Rightarrow> bool" where
  "counter_le a b =
     (case a of None \<Rightarrow> b = None | Some x \<Rightarrow> (case b of None \<Rightarrow> False | Some y \<Rightarrow> x \<le> y))"

definition counter_inc :: "int option \<Rightarrow> int option \<Rightarrow> bool" where
  "counter_inc a b = (b = a \<or> (case a of None \<Rightarrow> False | Some x \<Rightarrow> b = Some (x + 1)))"

definition tracker_le :: "Tracker \<Rightarrow> Tracker \<Rightarrow> bool" where
  "tracker_le t t' =
     (counter_le (ready t) (ready t') \<and> counter_le (started t) (started t') \<and>
      counter_le (processed t) (processed t') \<and> counter_le (completed t) (completed t'))"

definition tracker_inc :: "Tracker \<Rightarrow> Tracker \<Rightarrow> bool" where
  "tracker_inc t t' =
     (counter_inc (ready t) (ready t') \<and> counter_inc (started t) (started t') \<and>
      counter_inc (processed t) (processed t') \<and> counter_inc (completed t) (completed t'))"

definition slot_totals_rel ::
    "(Tracker \<Rightarrow> Tracker \<Rightarrow> bool) \<Rightarrow> OptimizationProgress \<Rightarrow> OptimizationProgress \<Rightarrow> bool" where
  "slot_totals_rel R a b =
     (R (total (optimizer a)) (total (optimizer b)) \<and>
      R (total (scheduler a)) (total (scheduler b)) \<and>
      R (total (zero_grad a)) (total (zero_grad b)))"

definition totals_rel ::
    "(Tracker \<Rightarrow> Tracker \<Rightarrow> bool) \<Rightarrow> FitLoopProgress \<Rightarrow> FitLoopProgress \<Rightarrow> bool" where
  "totals_rel R s s' =
     (R (total (epoch (train s))) (total (epoch (train s'))) \<and>
      R (total (LoopProgress.batch (train s))) (total (LoopProgress.batch (train s'))) \<and>
      R (total (BatchLoopProgress.batch (batch_loop (train s))))
        (total (BatchLoopProgress.batch (batch_loop (train s')))) \<and>
      list_all2 (slot_totals_rel R)
        (optimizations (batch_loop (train s))) (optimizations (batch_loop (train s'))) \<and>
      R (total (epoch (val s))) (total (epoch (val s'))) \<and>
      R (total (LoopProgress.batch (val s))) (total (LoopProgress.batch (val s'))))"

subsection \<open>Example states\<close>

text \<open>
  A training loop with one optimizer slot in which \<open>increment_ready\<close> has run once on
  the epoch, on the batch of the batch loop and on the slot's optimizer.
\<close>

definition example_batch_loop :: BatchLoopProgress where
  "example_batch_loop =
     \<lparr>BatchLoopProgress.batch = increment_ready Progress_default, optimizer_idx = Some 0,
      num_optimizers = 1,
      optimizations =
        [OptimizationProgress_default
           \<lparr>optimizer := increment_ready (optimizer OptimizationProgress_default)\<rparr>]\<rparr>"

definition example_train :: TrainingLoopProgress where
  "example_train =
     \<lparr>epoch = increment_ready Progress_default, batch = Progress_default,
      batch_loop = example_batch_loop\<rparr>"

definition example_ops :: "fit_op list" where
  "example_ops =
     [Increment (Slot 0 Optimizer) Ready, Increment BatchLoopBatch Completed,
      Increment TrainEpoch Completed, TrainIncrementEpochCompleted, TrainResetOnBatch,
      BatchLoopResetOnBatch, Increment ValBatch Started, ValIncrementEpochCompleted,
      ValResetOnEpoch]"

section \<open>Objects and references: the optimizer slots of a BatchLoopProgress\<close>

text \<open>
  The records above are values. Which slots of \<open>optimizations\<close> are the same object
  cannot be said of values, so this section models the objects themselves: a store holds
  the Tracker, Progress and OptimizationProgress objects that have been created, a
  reference is the position of an object in the store, and an object that holds another
  holds its reference. A method that mutates a Tracker replaces the Tracker at its
  reference; every holder of the reference sees the change. References held by objects
  are references of created objects, as in Python.
\<close>

type_synonym ref = nat

record Progress_obj =
  total_ref :: ref
  current_ref :: ref

record OptimizationProgress_obj =
  optimizer_ref :: ref
  scheduler_ref :: ref
  zero_grad_ref :: ref

record heap =
  trackers :: "Tracker list"
  progresses :: "Progress_obj list"
  optimization_progresses :: "OptimizationProgress_obj list"

text \<open>
  Creating an object appends it to the store and returns its reference.
\<close>

definition empty_heap :: heap where
  "empty_heap = \<lparr>trackers = [], progresses = [], optimization_progresses = []\<rparr>"

definition new_Tracker :: "heap \<Rightarrow> Tracker \<Rightarrow> ref \<times> heap" where
  "new_Tracker h t = (length (trackers h), h\<lparr>trackers := trackers h @ [t]\<rparr>)"

definition new_Progress :: "heap \<Rightarrow> Progress_obj \<Rightarrow> ref \<times> heap" where
  "new_Progress h p = (length (progresses h), h\<lparr>progresses := progresses h @ [p]\<rparr>)"

definition new_OptimizationProgress :: "heap \<Rightarrow> OptimizationProgress_obj \<Rightarrow> ref \<times> heap" where
  "new_OptimizationProgress h opt =
     (length (optimization_progresses h),
      h\<lparr>optimization_progresses := optimization_progresses h @ [opt]\<rparr>)"

text \<open>
  \<^verbatim>\<open>Progress.from_defaults\<close> on the store: two new Trackers from the same arguments and
  a new Progress that holds them.
\<close>

definition store_from_defaults ::
    "heap \<Rightarrow> int option \<Rightarrow> int option \<Rightarrow> int option \<Rightarrow> int option \<Rightarrow> ref \<times> heap" where
  "store_from_defaults h r s p c =
     (let (t, h1) = new_Tracker h (Tracker_init r s p c);
          (u, h2) = new_Tracker h1 (Tracker_init r s p c)
      in new_Progress h2 \<lparr>total_ref = t, current_ref = u\<rparr>)"

text \<open>
  The class body of OptimizationProgress runs once, when the module is imported: the
  three field defaults are created then, and they are attributes of the class.
\<close>

definition class_OptimizationProgress :: "heap \<Rightarrow> OptimizationProgress_obj \<times> heap" where
  "class_OptimizationProgress h =
     (let (a, h1) = store_from_defaults h (Some 0) (Some 0) None (Some 0);
          (b, h2) = store_from_defaults h1 (Some 0) None None (Some 0);
          (c, h3) = store_from_defaults h2 (Some 0) (Some 0) None (Some 0)
      in (\<lparr>optimizer_ref = a, scheduler_ref = b, zero_grad_ref = c\<rparr>, h3))"

text \<open>
  \<^verbatim>\<open>copy.deepcopy\<close> with its memo: an object that was copied before in the same call is
  not copied again, its copy is used. The counters of a Tracker are integers or
  \<^verbatim>\<open>None\<close>, which are copied as they are.
\<close>

record memo =
  tracker_memo :: "(ref \<times> ref) list"
  progress_memo :: "(ref \<times> ref) list"

definition deepcopy_Tracker :: "heap \<Rightarrow> memo \<Rightarrow> ref \<Rightarrow> ref \<times> heap \<times> memo" where
  "deepcopy_Tracker h m r =
     (case map_of (tracker_memo m) r of
        Some r' \<Rightarrow> (r', h, m)
      | None \<Rightarrow>
          (let (r', h') = new_Tracker h (trackers h ! r)
           in (r', h', m\<lparr>tracker_memo := (r, r') # tracker_memo m\<rparr>)))"

definition deepcopy_Progress :: "heap \<Rightarrow> memo \<Rightarrow> ref \<Rightarrow> ref \<times> heap \<times> memo" where
  "deepcopy_Progress h m r =
     (case map_of (progress_memo m) r of
        Some r' \<Rightarrow> (r', h, m)
      | None \<Rightarrow>
          (let p = progresses h ! r;
               (t, h1, m1) = deepcopy_Tracker h m (total_ref p);
               (u, h2, m2) = deepcopy_Tracker h1 m1 (current_ref p);
               (r', h3) = new_Progress h2 \<lparr>total_ref = t, current_ref = u\<rparr>
           in (r', h3, m2\<lparr>progress_memo := (r, r') # progress_memo m2\<rparr>)))"

definition deepcopy :: "heap \<Rightarrow> ref \<Rightarrow> ref \<times> heap" where
  "deepcopy h r =
     (let opt = optimization_progresses h ! r;
          m = \<lparr>tracker_memo = [], progress_memo = []\<rparr>;
          (a, h1, m1) = deepcopy_Progress h m (optimizer_ref opt);
          (b, h2, m2) = deepcopy_Progress h1 m1 (scheduler_ref opt);
          (c, h3, m3) = deepcopy_Progress h2 m2 (zero_grad_ref opt)
      in new_OptimizationProgress h3 \<lparr>optimizer_ref = a, scheduler_ref = b, zero_grad_ref = c\<rparr>)"

text \<open>
  The store and the class attributes after the import of the module.
\<close>

definition module_heap :: heap where
  "module_heap = snd (class_OptimizationProgress empty_heap)"

definition class_defaults :: OptimizationProgress_obj where
  "class_defaults = fst (class_OptimizationProgress empty_heap)"


text \<open>
  \<^verbatim>\<open>Progress()\<close>, the default factory of the field \<open>batch\<close>: two new default Trackers.
\<close>

definition store_Progress_init :: "heap \<Rightarrow> ref \<times> heap" where
  "store_Progress_init h =
     (let (t, h1) = new_Tracker h Tracker_default;
          (u, h2) = new_Tracker h1 Tracker_default
      in new_Progress h2 \<lparr>total_ref = t, current_ref = u\<rparr>)"

record BatchLoopProgress_obj =
  batch_ref :: ref
  optimizer_idx_attr :: "int option"
  num_optimizers_attr :: int
  optimizations_refs :: "ref list"

text \<open>
  \<^verbatim>\<open>__post_init__\<close>: for every element of \<^verbatim>\<open>range(num_optimizers)\<close> a new
  OptimizationProgress is created, whose three fields are the class attributes, and its
  deep copy is the next slot.
\<close>

fun post_init_loop :: "nat \<Rightarrow> heap \<Rightarrow> ref list \<times> heap" where
  "post_init_loop 0 h = ([], h)"
| "post_init_loop (Suc k) h =
     (let (x, h1) = new_OptimizationProgress h class_defaults;
          (y, h2) = deepcopy h1 x;
          (ys, h3) = post_init_loop k h2
      in (y # ys, h3))"

definition store_BatchLoopProgress_init :: "heap \<Rightarrow> int \<Rightarrow> BatchLoopProgress_obj \<times> heap" where
  "store_BatchLoopProgress_init h n =
     (let (b, h1) = store_Progress_init h;
          (ys, h2) = post_init_loop (nat n) h1
      in (\<lparr>batch_ref = b, optimizer_idx_attr = Some 0, num_optimizers_attr = n,
           optimizations_refs = ys\<rparr>, h2))"

text \<open>
  What a reference stands for: the Progress and the OptimizationProgress values of the
  first sections, read from the store.
\<close>

fun part_ref :: "part \<Rightarrow> OptimizationProgress_obj \<Rightarrow> ref" where
  "part_ref Optimizer opt = optimizer_ref opt"
| "part_ref Scheduler opt = scheduler_ref opt"
| "part_ref ZeroGrad opt = zero_grad_ref opt"

definition view_Progress :: "heap \<Rightarrow> ref \<Rightarrow> Progress" where
  "view_Progress h p =
     \<lparr>total = trackers h ! total_ref (progresses h ! p),
      current = trackers h ! current_ref (progresses h ! p)\<rparr>"

definition view :: "heap \<Rightarrow> ref \<Rightarrow> OptimizationProgress" where
  "view h y =
     (let opt = optimization_progresses h ! y
      in \<lparr>optimizer = view_Progress h (optimizer_ref opt),
          scheduler = view_Progress h (scheduler_ref opt),
          zero_grad = view_Progress h (zero_grad_ref opt)\<rparr>)"

text \<open>
  The mutating methods on the store. \<open>store_reset\<close> and \<open>store_setattr\<close> are
  \<^verbatim>\<open>Tracker.reset\<close> and \<^verbatim>\<open>Tracker.__setattr__\<close> on the Tracker at a reference.
  \<open>store_increment F\<close> is \<^verbatim>\<open>Progress.increment_F\<close> on the Progress at a reference: the
  second \<^verbatim>\<open>+= 1\<close> reads the store that the first one has written, so a Progress whose
  \<open>total\<close> and \<open>current\<close> are the same Tracker counts twice.
\<close>

definition store_reset :: "heap \<Rightarrow> ref \<Rightarrow> heap" where
  "store_reset h r = h\<lparr>trackers := (trackers h)[r := reset (trackers h ! r)]\<rparr>"

definition store_setattr :: "heap \<Rightarrow> ref \<Rightarrow> string \<Rightarrow> int option \<Rightarrow> heap" where
  "store_setattr h r key v = h\<lparr>trackers := (trackers h)[r := snd (setattr (trackers h ! r) key v)]\<rparr>"

definition add_one :: "counter \<Rightarrow> heap \<Rightarrow> ref \<Rightarrow> heap" where
  "add_one F h r =
     h\<lparr>trackers := (trackers h)
        [r := with_counter F (map_option (\<lambda>x. x + 1) (counter_of F (trackers h ! r)))
                (trackers h ! r)]\<rparr>"

definition store_increment :: "counter \<Rightarrow> heap \<Rightarrow> ref \<Rightarrow> heap" where
  "store_increment F h p =
     (let self = progresses h ! p in
      if counter_of F (trackers h ! total_ref self) = None \<or>
         counter_of F (trackers h ! current_ref self) = None
      then h
      else (let h1 = add_one F h (total_ref self) in add_one F h1 (current_ref self)))"

text \<open>
  The ways to change the counters of one slot: an increment of one of its three Progress
  objects, a reset of or a write to one of its six Trackers.
\<close>

datatype slot_mutation =
    Inc part counter
  | ResetTotal part
  | ResetCurrent part
  | WriteTotal part string "int option"
  | WriteCurrent part string "int option"

fun mutate :: "heap \<Rightarrow> ref \<Rightarrow> slot_mutation \<Rightarrow> heap" where
  "mutate h y (Inc q F) = store_increment F h (part_ref q (optimization_progresses h ! y))"
| "mutate h y (ResetTotal q) =
     store_reset h (total_ref (progresses h ! part_ref q (optimization_progresses h ! y)))"
| "mutate h y (ResetCurrent q) =
     store_reset h (current_ref (progresses h ! part_ref q (optimization_progresses h ! y)))"
| "mutate h y (WriteTotal q key v) =
     store_setattr h (total_ref (progresses h ! part_ref q (optimization_progresses h ! y))) key v"
| "mutate h y (WriteCurrent q key v) =
     store_setattr h (current_ref (progresses h ! part_ref q (optimization_progresses h ! y))) key v"

definition mutate_all :: "heap \<Rightarrow> ref \<Rightarrow> slot_mutation list \<Rightarrow> heap" where
  "mutate_all h y ms = foldl (\<lambda>h'. mutate h' y) h ms"

text \<open>
  The references of the six Trackers of a slot; \<open>extends h h'\<close> says that \<open>h'\<close> has
  every object of \<open>h\<close> at the same reference; a slot is valid when all its references
  are of created objects.
\<close>

definition slot_refs :: "heap \<Rightarrow> ref \<Rightarrow> ref list" where
  "slot_refs h y =
     (let opt = optimization_progresses h ! y
      in [total_ref (progresses h ! optimizer_ref opt), current_ref (progresses h ! optimizer_ref opt),
          total_ref (progresses h ! scheduler_ref opt), current_ref (progresses h ! scheduler_ref opt),
          total_ref (progresses h ! zero_grad_ref opt), current_ref (progresses h ! zero_grad_ref opt)])"

definition extends :: "heap \<Rightarrow> heap \<Rightarrow> bool" where
  "extends h h' =
     (prefix (trackers h) (trackers h') \<and> prefix (progresses h) (progresses h') \<and>
      prefix (optimization_progresses h) (optimization_progresses h'))"

definition valid_slot :: "heap \<Rightarrow> ref \<Rightarrow> bool" where
  "valid_slot h y =
     (y < length (optimization_progresses h) \<and>
      list_all (\<lambda>p. p < length (progresses h))
        (let opt = optimization_progresses h ! y
         in [optimizer_ref opt, scheduler_ref opt, zero_grad_ref opt]) \<and>
      list_all (\<lambda>r. r < length (trackers h)) (slot_refs h y))"

text \<open>
  The stores a program can be in. The class attributes of OptimizationProgress are
  created at import and the objects they name stay where they are: a store is
  \<open>class_ok\<close> when it has the three default Progress objects, holding their six
  Trackers, at the references of the import. The counters of these Trackers may have
  any value, since an OptimizationProgress that was not copied shares them and can
  change them. \<open>class_view h\<close> is what a new \<^verbatim>\<open>OptimizationProgress()\<close> reads in \<open>h\<close>.
\<close>

definition class_ok :: "heap \<Rightarrow> bool" where
  "class_ok h =
     (prefix (progresses module_heap) (progresses h) \<and>
      length (trackers module_heap) \<le> length (trackers h))"

definition class_view :: "heap \<Rightarrow> OptimizationProgress" where
  "class_view h =
     \<lparr>optimizer = view_Progress h (optimizer_ref class_defaults),
      scheduler = view_Progress h (scheduler_ref class_defaults),
      zero_grad = view_Progress h (zero_grad_ref class_defaults)\<rparr>"

text \<open>
  A slot is fresh for \<open>h\<close> when it is valid, its Trackers were created after \<open>h\<close> and it
  reads as a new \<^verbatim>\<open>OptimizationProgress()\<close> did in \<open>h\<close>.
\<close>

definition fresh :: "heap \<Rightarrow> heap \<Rightarrow> ref \<Rightarrow> bool" where
  "fresh h h' y =
     (valid_slot h' y \<and> view h' y = class_view h \<and>
      list_all (\<lambda>r. length (trackers h) \<le> r) (slot_refs h' y))"



section \<open>Unwrapping sharded models (\<^verbatim>\<open>pytorch_lightning/overrides/fairscale.py\<close>)\<close>

text \<open>
  A model object is one of the three wrappers of the sharded backends around an inner
  module (its attribute \<^verbatim>\<open>module\<close>), or any other object, which no \<^verbatim>\<open>isinstance\<close>
  test of this file accepts. Both functions end in a call of \<^verbatim>\<open>unwrap_lightning_module\<close>,
  which is imported from \<^verbatim>\<open>pytorch_lightning.overrides.base\<close>; it is a parameter of the
  model. The functions exist when the backend is installed, which is assumed here.
\<close>

datatype 'a module =
    Other 'a
  | ShardedDataParallel "'a module"
  | FullyShardedDataParallel "'a module"
  | FlattenParamsWrapper "'a module"

definition unwrap_lightning_module_sharded ::
    "('a module \<Rightarrow> 'a module) \<Rightarrow> 'a module \<Rightarrow> 'a module" where
  "unwrap_lightning_module_sharded unwrap_lightning_module wrapped_model =
     (let model = wrapped_model;
          model = (case model of ShardedDataParallel inner \<Rightarrow> inner | _ \<Rightarrow> model)
      in unwrap_lightning_module model)"

definition unwrap_lightning_module_full_sharded ::
    "('a module \<Rightarrow> 'a module) \<Rightarrow> 'a module \<Rightarrow> 'a module" where
  "unwrap_lightning_module_full_sharded unwrap_lightning_module wrapped_model =
     (let model = wrapped_model;
          model = (case model of FullyShardedDataParallel inner \<Rightarrow> inner | _ \<Rightarrow> model);
          model = (case model of FlattenParamsWrapper inner \<Rightarrow> inner | _ \<Rightarrow> model)
      in unwrap_lightning_module model)"

text \<open>
  The three steps as the specification words them, one after the other in a single
  function \<open>unwrap\<close>, for the comparison with the two functions of the source.
\<close>

fun strip_sharded :: "'a module \<Rightarrow> 'a module" where
  "strip_sharded (ShardedDataParallel inner) = inner"
| "strip_sharded model = model"

fun strip_full_sharded :: "'a module \<Rightarrow> 'a module" where
  "strip_full_sharded (FullyShardedDataParallel inner) = inner"
| "strip_full_sharded model = model"

fun strip_flatten :: "'a module \<Rightarrow> 'a module" where
  "strip_flatten (FlattenParamsWrapper inner) = inner"
| "strip_flatten model = model"

definition spec_unwrap :: "'a module \<Rightarrow> 'a module" where
  "spec_unwrap model = strip_flatten (strip_full_sharded (strip_sharded model))"

fun is_sharded :: "'a module \<Rightarrow> bool" where
  "is_sharded (ShardedDataParallel inner) = True"
| "is_sharded model = False"

fun is_full_sharded_or_flatten :: "'a module \<Rightarrow> bool" where
  "is_full_sharded_or_flatten (FullyShardedDataParallel inner) = True"
| "is_full_sharded_or_flatten (FlattenParamsWrapper inner) = True"
| "is_full_sharded_or_flatten model = False"

section \<open>Properties of Tracker and Progress\<close>

lemma increment_enabled:
  assumes "counter_of F (total P) = Some a" and "counter_of F (current P) = Some b"
  shows "increment F P =
           P\<lparr>total := with_counter F (Some (a + 1)) (total P),
             current := with_counter F (Some (b + 1)) (current P)\<rparr>"
  using assms
  by (cases F) (simp_all add: increment_ready_def increment_started_def
      increment_processed_def increment_completed_def)

lemma increment_disabled:
  assumes "counter_of F (total P) = None \<or> counter_of F (current P) = None"
  shows "increment F P = P"
  using assms
  by (cases F) (auto simp: increment_ready_def increment_started_def
      increment_processed_def increment_completed_def split: option.splits)

lemma counter_of_with_counter [simp]:
  "counter_of F (with_counter G v t) = (if F = G then v else counter_of F t)"
  by (cases F; cases G) simp_all

lemma with_counter_twice [simp]:
  "with_counter F v (with_counter F w t) = with_counter F v t"
  by (cases F) simp_all

lemma increment_funpow_enabled:
  assumes "counter_of F (total P) = Some a" and "counter_of F (current P) = Some b"
  shows "(increment F ^^ n) P =
           (if n = 0 then P
            else P\<lparr>total := with_counter F (Some (a + int n)) (total P),
                   current := with_counter F (Some (b + int n)) (current P)\<rparr>)"
proof (induction n)
  case 0
  show ?case by simp
next
  case (Suc n)
  show ?case
  proof (cases "n = 0")
    case True
    then show ?thesis using assms by (simp add: increment_enabled)
  next
    case False
    let ?Q = "P\<lparr>total := with_counter F (Some (a + int n)) (total P),
                 current := with_counter F (Some (b + int n)) (current P)\<rparr>"
    from False Suc have step: "(increment F ^^ n) P = ?Q" by simp
    have "increment F ?Q =
            ?Q\<lparr>total := with_counter F (Some (a + int n + 1)) (total ?Q),
               current := with_counter F (Some (b + int n + 1)) (current ?Q)\<rparr>"
      by (rule increment_enabled) simp_all
    then show ?thesis using step by (simp add: algebra_simps)
  qed
qed

lemma increment_funpow_disabled:
  assumes "counter_of F (total P) = None \<or> counter_of F (current P) = None"
  shows "(increment F ^^ n) P = P"
  by (induction n) (simp_all add: increment_disabled [OF assms])

lemma counter_of_default [simp]: "counter_of F Tracker_default = Some 0"
  by (cases F) (simp_all add: Tracker_default_def Tracker_init_def)

text \<open>
  Claim C1. If the counter F is enabled on both \<open>total\<close> and \<open>current\<close> of a Progress,
  one call of \<open>increment_F\<close> adds exactly 1 to that counter on both trackers and changes
  nothing else; n calls on a default-constructed Progress leave both counters at n; if
  F is disabled on either tracker, any number of calls leaves the Progress as it was.
\<close>

theorem progress_increment:
  "(\<forall>a b. counter_of F (total P) = Some a \<longrightarrow> counter_of F (current P) = Some b \<longrightarrow>
      increment F P =
        P\<lparr>total := with_counter F (Some (a + 1)) (total P),
          current := with_counter F (Some (b + 1)) (current P)\<rparr>)
   \<and> counter_of F (total ((increment F ^^ n) Progress_default)) = Some (int n)
   \<and> counter_of F (current ((increment F ^^ n) Progress_default)) = Some (int n)
   \<and> (counter_of F (total P) = None \<or> counter_of F (current P) = None \<longrightarrow>
        (increment F ^^ n) P = P)"
proof -
  have d: "counter_of F (total Progress_default) = Some 0"
          "counter_of F (current Progress_default) = Some 0"
    by (simp_all add: Progress_default_def)
  have "counter_of F (total ((increment F ^^ n) Progress_default)) = Some (int n)"
       "counter_of F (current ((increment F ^^ n) Progress_default)) = Some (int n)"
    using d by (simp_all add: increment_funpow_enabled [OF d])
  then show ?thesis
    by (simp add: increment_enabled increment_funpow_disabled)
qed

theorem progress_increment_witness:
  "increment Completed (from_defaults (Some 0) None (Some 0) (Some 5)) =
     \<lparr>total = Tracker_init (Some 0) None (Some 0) (Some 6),
      current = Tracker_init (Some 0) None (Some 0) (Some 6)\<rparr>
   \<and> counter_of Completed (total ((increment Completed ^^ 3) Progress_default)) = Some 3
   \<and> (increment Started ^^ 3) (from_defaults (Some 0) None (Some 0) (Some 5)) =
       from_defaults (Some 0) None (Some 0) (Some 5)"
  using progress_increment [of Completed "from_defaults (Some 0) None (Some 0) (Some 5)" 3]
        progress_increment [of Started "from_defaults (Some 0) None (Some 0) (Some 5)" 3]
  by (simp add: from_defaults_def Tracker_init_def)


lemma getattr_counter [simp]: "getattr T (counter_name F) d = counter_of F T"
  by (cases F) (simp_all add: getattr_def)

lemma object_setattr_counter [simp]:
  "object_setattr T (counter_name F) v = with_counter F v T"
  by (cases F) (simp_all add: object_setattr_def)

lemma setattr_disabled:
  "counter_of F T = None \<Longrightarrow>
     setattr T (counter_name F) v = (Inl (AttributeError (unused_message (counter_name F))), T)"
  by (simp add: setattr_def)

lemma setattr_enabled:
  "counter_of F T \<noteq> None \<Longrightarrow> setattr T (counter_name F) v = (Inr (), with_counter F v T)"
  by (simp add: setattr_def)

lemma counter_of_reset:
  "counter_of F (reset T) = (if counter_of F T = None then None else Some 0)"
  by (cases F) (simp_all add: reset_def Let_def)

lemma attrs_reset [simp]: "attrs (reset T) = attrs T"
  by (simp add: reset_def Let_def)

lemma counter_of_object_setattr:
  "counter_of F (object_setattr T key v) = (if key = counter_name F then v else counter_of F T)"
  by (cases F) (simp_all add: object_setattr_def)

lemma counter_of_setattr:
  "counter_of F (snd (setattr T key v)) =
     (if key = counter_name F \<and> counter_of F T \<noteq> None then v else counter_of F T)"
  by (auto simp: setattr_def counter_of_object_setattr)

lemma step_keeps_disabled:
  "counter_of F T = None \<Longrightarrow> counter_of F (tracker_step T x) = None"
  by (cases x) (simp_all add: counter_of_setattr counter_of_reset)

lemma run_keeps_disabled:
  "counter_of F T = None \<Longrightarrow> counter_of F (tracker_run ops T) = None"
  unfolding tracker_run_def
  by (induction ops arbitrary: T) (simp_all add: step_keeps_disabled)

lemma step_keeps_enabled:
  "counter_of F T \<noteq> None \<Longrightarrow> int_valued x \<Longrightarrow> counter_of F (tracker_step T x) \<noteq> None"
  by (cases x) (simp_all add: counter_of_setattr counter_of_reset)

lemma run_keeps_enabled:
  "counter_of F T \<noteq> None \<Longrightarrow> list_all int_valued ops \<Longrightarrow>
     counter_of F (tracker_run ops T) \<noteq> None"
  unfolding tracker_run_def
proof (induction ops arbitrary: T)
  case Nil
  then show ?case by simp
next
  case (Cons x xs)
  from Cons.prems have "counter_of F (tracker_step T x) \<noteq> None"
    by (intro step_keeps_enabled) simp_all
  moreover from Cons.prems have "list_all int_valued xs" by simp
  ultimately show ?case using Cons.IH by simp
qed

text \<open>
  Claim C2. A counter that is disabled when the Tracker is constructed stays disabled
  under every later write and reset, and writing any value to it raises the ``meant to
  be unused'' error and leaves the Tracker as it was. Writing to a counter that is
  enabled in the constructed Tracker succeeds and replaces the counter, nothing else;
  the same holds after any resets and integer writes.
\<close>

theorem tracker_write_guard:
  "(counter_of F (Tracker_init r s p c) = None \<longrightarrow>
      setattr (tracker_run ops (Tracker_init r s p c)) (counter_name F) v =
        (Inl (AttributeError (unused_message (counter_name F))),
         tracker_run ops (Tracker_init r s p c)))
   \<and> (counter_of F (Tracker_init r s p c) \<noteq> None \<longrightarrow>
        setattr (Tracker_init r s p c) (counter_name F) v =
          (Inr (), with_counter F v (Tracker_init r s p c)))
   \<and> (counter_of F (Tracker_init r s p c) \<noteq> None \<longrightarrow> list_all int_valued ops \<longrightarrow>
        setattr (tracker_run ops (Tracker_init r s p c)) (counter_name F) v =
          (Inr (), with_counter F v (tracker_run ops (Tracker_init r s p c))))"
  by (simp add: setattr_disabled setattr_enabled run_keeps_disabled run_keeps_enabled)

theorem tracker_write_guard_witness:
  "setattr (Tracker_init (Some 10) (Some 0) (Some 0) None) ''completed'' (Some 10) =
     (Inl (AttributeError ''The 'completed' attribute is meant to be unused''),
      Tracker_init (Some 10) (Some 0) (Some 0) None)
   \<and> setattr (tracker_run [Write ''x'' (Some 1), Reset, Write ''completed'' (Some 3)]
        (Tracker_init (Some 10) (Some 0) (Some 0) None)) ''completed'' (Some 10) =
     (Inl (AttributeError ''The 'completed' attribute is meant to be unused''),
      \<lparr>ready = Some 0, started = Some 0, processed = Some 0, completed = None,
       attrs = [(''x'', Some 1)]\<rparr>)
   \<and> setattr (Tracker_init (Some 10) (Some 0) (Some 0) None) ''ready'' (Some 7) =
     (Inr (), Tracker_init (Some 7) (Some 0) (Some 0) None)
   \<and> setattr (tracker_run [Write ''ready'' (Some 4), Reset]
        (Tracker_init (Some 10) (Some 0) (Some 0) None)) ''ready'' (Some 7) =
     (Inr (), Tracker_init (Some 7) (Some 0) (Some 0) None)"
  using tracker_write_guard [of Completed "Some 10" "Some 0" "Some 0" None "[]" "Some 10"]
    tracker_write_guard [of Completed "Some 10" "Some 0" "Some 0" None
      "[Write ''x'' (Some 1), Reset, Write ''completed'' (Some 3)]" "Some 10"]
    tracker_write_guard [of Ready "Some 10" "Some 0" "Some 0" None
      "[Write ''ready'' (Some 4), Reset]" "Some 7"]
  by (simp add: Tracker_init_def tracker_run_def setattr_def getattr_def object_setattr_def
      reset_def unused_message_def)

text \<open>
  Claim C3. \<open>reset\<close> sets every enabled counter to 0, leaves every disabled counter
  disabled and touches nothing else; \<^verbatim>\<open>Tracker(ready=1, started=2, completed=None)\<close>
  becomes \<^verbatim>\<open>Tracker(ready=0, started=0, completed=None)\<close>.
\<close>

theorem tracker_reset:
  "counter_of F (reset T) = (if counter_of F T = None then None else Some 0)
   \<and> attrs (reset T) = attrs T
   \<and> reset (Tracker_init (Some 1) (Some 2) (Some 0) None) =
       Tracker_init (Some 0) (Some 0) (Some 0) None"
  by (simp add: counter_of_reset) (simp add: reset_def Tracker_init_def)


lemma update_new_key:
  "map_of al key = None \<Longrightarrow> AList.update key v al = al @ [(key, v)]"
  by (induction al) (auto split: if_splits)

text \<open>
  Claim C10. The guard of a write looks at the value the attribute holds at the time of
  the write: the write is rejected exactly when that value is \<^verbatim>\<open>None\<close>. So writing
  \<^verbatim>\<open>None\<close> to an enabled counter succeeds and disables it, after which every write to
  it is rejected, whatever writes and resets come between; and a write to a name the
  instance does not have yet succeeds and adds the attribute.
\<close>

theorem tracker_guard_reads_current_value:
  "isl (fst (setattr T key v)) = (getattr T key (Some 0) = None)
   \<and> isl (fst (setattr T (counter_name F) v)) = (counter_of F T = None)
   \<and> (counter_of F T \<noteq> None \<longrightarrow>
        setattr T (counter_name F) None = (Inr (), with_counter F None T)
        \<and> setattr (tracker_run ops (with_counter F None T)) (counter_name F) w =
            (Inl (AttributeError (unused_message (counter_name F))),
             tracker_run ops (with_counter F None T)))
   \<and> (key \<notin> set [''ready'', ''started'', ''processed'', ''completed''] \<and>
      key \<notin> fst ` set (attrs T) \<longrightarrow>
        setattr T key v = (Inr (), T\<lparr>attrs := attrs T @ [(key, v)]\<rparr>))"
proof -
  have a: "isl (fst (setattr T k v)) = (getattr T k (Some 0) = None)" for k
    by (simp add: setattr_def)
  have b: "setattr (tracker_run ops (with_counter F None T)) (counter_name F) w =
            (Inl (AttributeError (unused_message (counter_name F))),
             tracker_run ops (with_counter F None T))"
    by (rule setattr_disabled) (simp add: run_keeps_disabled)
  have c: "setattr T key v = (Inr (), T\<lparr>attrs := attrs T @ [(key, v)]\<rparr>)"
    if "key \<notin> set [''ready'', ''started'', ''processed'', ''completed'']"
      and "key \<notin> fst ` set (attrs T)"
  proof -
    from that(2) have "map_of (attrs T) key = None"
      by (simp add: map_of_eq_None_iff)
    with that(1) show ?thesis
      by (simp add: setattr_def getattr_def object_setattr_def update_new_key)
  qed
  from a [of key] a [of "counter_name F"] b c show ?thesis
    by (simp add: setattr_enabled)
qed

theorem tracker_guard_reads_current_value_witness:
  "setattr Tracker_default ''ready'' None = (Inr (), Tracker_init None (Some 0) (Some 0) (Some 0))
   \<and> setattr (tracker_run [Reset, Write ''ready'' (Some 1)]
        (Tracker_init None (Some 0) (Some 0) (Some 0))) ''ready'' (Some 2) =
       (Inl (AttributeError ''The 'ready' attribute is meant to be unused''),
        Tracker_init None (Some 0) (Some 0) (Some 0))
   \<and> setattr (Tracker_init (Some 10) (Some 0) (Some 0) None) ''non_existing_attr'' (Some 10) =
       (Inr (), \<lparr>ready = Some 10, started = Some 0, processed = Some 0, completed = None,
                attrs = [(''non_existing_attr'', Some 10)]\<rparr>)"
  using tracker_guard_reads_current_value
      [of Tracker_default "''ready''" None Ready "[Reset, Write ''ready'' (Some 1)]" "Some 2"]
    tracker_guard_reads_current_value
      [of "Tracker_init (Some 10) (Some 0) (Some 0) None" "''non_existing_attr''" "Some 10"
          Ready "[]" None]
  by (simp add: Tracker_default_def Tracker_init_def tracker_run_def setattr_def getattr_def
      object_setattr_def reset_def unused_message_def)

text \<open>
  Claim C4, as the code has it. \<open>optimizer_steps\<close> and \<open>scheduler_steps\<close> return
  \<open>total.completed\<close> of the optimizer and of the scheduler in every case: the counter
  when it is enabled, and the sentinel \<^verbatim>\<open>None\<close>, with no error, when it is disabled.
\<close>

theorem steps_return_total_completed:
  "optimizer_steps P = Inr (counter_of Completed (total (optimizer P)))
   \<and> scheduler_steps P = Inr (counter_of Completed (total (scheduler P)))
   \<and> optimizer_steps OptimizationProgress_default = Inr (Some 0)
   \<and> scheduler_steps OptimizationProgress_default = Inr (Some 0)"
  by (simp add: optimizer_steps_def scheduler_steps_def OptimizationProgress_default_def
      from_defaults_def Tracker_init_def)

text \<open>
  With \<open>completed\<close> disabled on the optimizer and on the scheduler, both properties
  return \<^verbatim>\<open>None\<close>; neither raises.
\<close>

theorem steps_disabled_counterexample:
  "optimizer_steps
     \<lparr>optimizer = from_defaults (Some 0) (Some 0) None None,
      scheduler = from_defaults (Some 0) None None None,
      zero_grad = from_defaults (Some 0) (Some 0) None (Some 0)\<rparr> = Inr None
   \<and> scheduler_steps
     \<lparr>optimizer = from_defaults (Some 0) (Some 0) None None,
      scheduler = from_defaults (Some 0) None None None,
      zero_grad = from_defaults (Some 0) (Some 0) None (Some 0)\<rparr> = Inr None"
  by (simp add: optimizer_steps_def scheduler_steps_def from_defaults_def Tracker_init_def)


section \<open>Properties of the loop records\<close>

lemma reset_record:
  "reset T =
     \<lparr>ready = (if ready T = None then None else Some 0),
      started = (if started T = None then None else Some 0),
      processed = (if processed T = None then None else Some 0),
      completed = (if completed T = None then None else Some 0),
      attrs = attrs T\<rparr>"
  by (cases T) (simp add: reset_def Let_def)

lemma reset_after_increment_completed:
  "reset (current (increment_completed p)) = reset (current p)"
proof (cases "completed (total p)")
  case None
  then show ?thesis by (simp add: increment_completed_def)
next
  case tot: (Some a)
  show ?thesis
  proof (cases "completed (current p)")
    case None
    with tot show ?thesis by (simp add: increment_completed_def)
  next
    case (Some b)
    with tot show ?thesis by (simp add: increment_completed_def reset_record)
  qed
qed

lemma total_reset_current [simp]: "total (reset_current p) = total p"
  by (simp add: reset_current_def)

lemma current_reset_current [simp]: "current (reset_current p) = reset (current p)"
  by (simp add: reset_current_def)

lemma part_of_reset_opt [simp]: "part_of q (reset_opt opt) = reset_current (part_of q opt)"
  by (cases q) (simp_all add: reset_opt_def)

text \<open>
  Claim C5. On a TrainingLoopProgress, \<open>increment_epoch_completed\<close> applies
  \<open>increment_completed\<close> to \<open>epoch\<close> (total and current; \<open>epoch.current\<close> is not
  reset), resets the \<open>current\<close> tracker of the batch loop's \<open>batch\<close> and of the
  optimizer, scheduler and zero_grad Progress of every slot, and leaves every other
  \<open>total\<close> tracker, the number of slots and the remaining fields as they were. On a
  plain LoopProgress the call increments \<open>epoch.total\<close> in the same way and resets both
  \<open>batch.current\<close> and \<open>epoch.current\<close>.
\<close>

theorem increment_epoch_completed_effect:
  fixes T :: TrainingLoopProgress and L :: LoopProgress
  defines "T' \<equiv> TrainingLoopProgress_increment_epoch_completed T"
    and "L' \<equiv> LoopProgress_increment_epoch_completed L"
  shows "epoch T' = increment_completed (epoch T)
   \<and> LoopProgress.batch T' = LoopProgress.batch T
   \<and> total (BatchLoopProgress.batch (batch_loop T')) =
       total (BatchLoopProgress.batch (batch_loop T))
   \<and> current (BatchLoopProgress.batch (batch_loop T')) =
       reset (current (BatchLoopProgress.batch (batch_loop T)))
   \<and> optimizer_idx (batch_loop T') = optimizer_idx (batch_loop T)
   \<and> num_optimizers (batch_loop T') = num_optimizers (batch_loop T)
   \<and> length (optimizations (batch_loop T')) = length (optimizations (batch_loop T))
   \<and> (\<forall>i < length (optimizations (batch_loop T)).
        total (part_of q (optimizations (batch_loop T') ! i)) =
          total (part_of q (optimizations (batch_loop T) ! i))
        \<and> current (part_of q (optimizations (batch_loop T') ! i)) =
            reset (current (part_of q (optimizations (batch_loop T) ! i))))
   \<and> total (epoch L') = total (increment_completed (epoch L))
   \<and> current (epoch L') = reset (current (epoch L))
   \<and> total (batch L') = total (batch L)
   \<and> current (batch L') = reset (current (batch L))"
  unfolding T'_def L'_def
  by (simp add: TrainingLoopProgress_increment_epoch_completed_def
      TrainingLoopProgress_reset_on_epoch_def BatchLoopProgress_reset_on_batch_def
      LoopProgress_increment_epoch_completed_def LoopProgress_reset_on_epoch_def
      reset_after_increment_completed)


lemmas example_defs =
  example_train_def example_batch_loop_def Progress_default_def Tracker_default_def
  OptimizationProgress_default_def from_defaults_def Tracker_init_def increment_ready_def
  increment_completed_def reset_def

theorem increment_epoch_completed_effect_witness:
  "epoch (TrainingLoopProgress_increment_epoch_completed example_train) =
     \<lparr>total = Tracker_init (Some 1) (Some 0) (Some 0) (Some 1),
      current = Tracker_init (Some 1) (Some 0) (Some 0) (Some 1)\<rparr>
   \<and> current (BatchLoopProgress.batch
        (batch_loop (TrainingLoopProgress_increment_epoch_completed example_train))) =
       Tracker_default
   \<and> total (optimizer (optimizations
        (batch_loop (TrainingLoopProgress_increment_epoch_completed example_train)) ! 0)) =
       Tracker_init (Some 1) (Some 0) None (Some 0)
   \<and> current (optimizer (optimizations
        (batch_loop (TrainingLoopProgress_increment_epoch_completed example_train)) ! 0)) =
       Tracker_init (Some 0) (Some 0) None (Some 0)
   \<and> current (epoch (LoopProgress_increment_epoch_completed
        \<lparr>epoch = increment_ready Progress_default, batch = increment_ready Progress_default\<rparr>)) =
       Tracker_default"
  using increment_epoch_completed_effect [of example_train Optimizer
      "\<lparr>epoch = increment_ready Progress_default, batch = increment_ready Progress_default\<rparr>"]
  by (simp add: example_defs)

text \<open>
  Claim C6, as the code has it. \<open>reset_on_batch\<close> of the BatchLoopProgress resets the
  \<open>current\<close> tracker of the optimizer, scheduler and zero_grad Progress of every slot
  and \<open>batch.current\<close>, and leaves every \<open>total\<close> tracker as it was.
  \<open>reset_on_batch\<close> of the TrainingLoopProgress resets the same trackers of every slot
  and nothing else: the batch of the batch loop (\<open>current\<close> included), the epoch, the
  inherited batch and every \<open>total\<close> tracker stay as they were.
\<close>

theorem reset_on_batch_effect:
  fixes B :: BatchLoopProgress and T :: TrainingLoopProgress
  defines "B' \<equiv> BatchLoopProgress_reset_on_batch B"
    and "T' \<equiv> TrainingLoopProgress_reset_on_batch T"
  shows "total (BatchLoopProgress.batch B') = total (BatchLoopProgress.batch B)
   \<and> current (BatchLoopProgress.batch B') = reset (current (BatchLoopProgress.batch B))
   \<and> optimizer_idx B' = optimizer_idx B
   \<and> num_optimizers B' = num_optimizers B
   \<and> length (optimizations B') = length (optimizations B)
   \<and> (\<forall>i < length (optimizations B).
        total (part_of q (optimizations B' ! i)) = total (part_of q (optimizations B ! i))
        \<and> current (part_of q (optimizations B' ! i)) =
            reset (current (part_of q (optimizations B ! i))))
   \<and> epoch T' = epoch T
   \<and> LoopProgress.batch T' = LoopProgress.batch T
   \<and> BatchLoopProgress.batch (batch_loop T') = BatchLoopProgress.batch (batch_loop T)
   \<and> optimizer_idx (batch_loop T') = optimizer_idx (batch_loop T)
   \<and> num_optimizers (batch_loop T') = num_optimizers (batch_loop T)
   \<and> length (optimizations (batch_loop T')) = length (optimizations (batch_loop T))
   \<and> (\<forall>i < length (optimizations (batch_loop T)).
        total (part_of q (optimizations (batch_loop T') ! i)) =
          total (part_of q (optimizations (batch_loop T) ! i))
        \<and> current (part_of q (optimizations (batch_loop T') ! i)) =
            reset (current (part_of q (optimizations (batch_loop T) ! i))))"
  unfolding B'_def T'_def
  by (simp add: BatchLoopProgress_reset_on_batch_def TrainingLoopProgress_reset_on_batch_def)

theorem reset_on_batch_effect_witness:
  "current (BatchLoopProgress.batch (BatchLoopProgress_reset_on_batch example_batch_loop)) =
     Tracker_default
   \<and> current (optimizer (optimizations
        (BatchLoopProgress_reset_on_batch example_batch_loop) ! 0)) =
       Tracker_init (Some 0) (Some 0) None (Some 0)
   \<and> total (optimizer (optimizations
        (BatchLoopProgress_reset_on_batch example_batch_loop) ! 0)) =
       Tracker_init (Some 1) (Some 0) None (Some 0)
   \<and> current (optimizer (optimizations
        (batch_loop (TrainingLoopProgress_reset_on_batch example_train)) ! 0)) =
       Tracker_init (Some 0) (Some 0) None (Some 0)
   \<and> epoch (TrainingLoopProgress_reset_on_batch example_train) =
       increment_ready Progress_default"
  using reset_on_batch_effect [of example_batch_loop Optimizer example_train]
  by (simp add: example_defs)

text \<open>
  On the example state, \<open>reset_on_batch\<close> of the TrainingLoopProgress leaves
  \<open>batch.current.ready\<close> of the batch loop at 1: it is not reset.
\<close>

theorem training_reset_on_batch_counterexample:
  "ready (current (BatchLoopProgress.batch
     (batch_loop (TrainingLoopProgress_reset_on_batch example_train)))) = Some 1"
  by (simp add: TrainingLoopProgress_reset_on_batch_def example_defs)


section \<open>Monotone totals\<close>

lemma counter_inc_refl [simp]: "counter_inc a a"
  by (simp add: counter_inc_def)

lemma tracker_inc_refl [simp]: "tracker_inc t t"
  by (simp add: tracker_inc_def)

lemma counter_inc_le: "counter_inc a b \<Longrightarrow> counter_le a b"
  by (auto simp: counter_inc_def counter_le_def split: option.splits)

lemma tracker_inc_le: "tracker_inc t t' \<Longrightarrow> tracker_le t t'"
  by (simp add: tracker_inc_def tracker_le_def counter_inc_le)

lemma counter_le_refl [simp]: "counter_le a a"
  by (simp add: counter_le_def split: option.splits)

lemma counter_le_trans: "counter_le a b \<Longrightarrow> counter_le b c \<Longrightarrow> counter_le a c"
  by (auto simp: counter_le_def split: option.splits)

lemma tracker_le_refl [simp]: "tracker_le t t"
  by (simp add: tracker_le_def)

lemma tracker_le_trans: "tracker_le a b \<Longrightarrow> tracker_le b c \<Longrightarrow> tracker_le a c"
  unfolding tracker_le_def by (blast intro: counter_le_trans)

lemma total_increment_inc: "tracker_inc (total p) (total (increment F p))"
  by (cases F)
     (auto simp: tracker_inc_def counter_inc_def increment_ready_def increment_started_def
        increment_processed_def increment_completed_def split: option.splits)

lemma slot_totals_rel_refl: "(\<And>t. R t t) \<Longrightarrow> slot_totals_rel R a a"
  by (simp add: slot_totals_rel_def)

lemma slots_rel_refl: "(\<And>t. R t t) \<Longrightarrow> list_all2 (slot_totals_rel R) xs xs"
  by (simp add: list_all2_same slot_totals_rel_refl)

lemma slots_rel_reset: "(\<And>t. R t t) \<Longrightarrow> list_all2 (slot_totals_rel R) xs (map reset_opt xs)"
  by (simp add: list_all2_map2 list_all2_same slot_totals_rel_def reset_opt_def)

lemma slot_with_part:
  "(\<And>t. R t t) \<Longrightarrow> R (total (part_of q a)) (total p) \<Longrightarrow> slot_totals_rel R a (with_part q p a)"
  by (cases q) (simp_all add: slot_totals_rel_def)

lemma slots_rel_update:
  assumes "\<And>t. R t t" and "i < length xs" and "slot_totals_rel R (xs ! i) y"
  shows "list_all2 (slot_totals_rel R) xs (xs[i := y])"
  using assms by (auto simp: list_all2_conv_all_nth nth_list_update slot_totals_rel_refl)

lemma fit_step_inc:
  assumes "fit_step s x = Inr s'"
  shows "totals_rel tracker_inc s s'"
proof (cases x)
  case (Increment pl F)
  show ?thesis
  proof (cases pl)
    case (Slot i q)
    with Increment assms show ?thesis
      by (auto simp: totals_rel_def Let_def slots_rel_refl split: if_splits
          intro!: slots_rel_update slot_with_part total_increment_inc)
  qed (use Increment assms in \<open>auto simp: totals_rel_def slots_rel_refl total_increment_inc\<close>)
next
  case TrainIncrementEpochCompleted
  with assms show ?thesis
    by (auto simp: totals_rel_def TrainingLoopProgress_increment_epoch_completed_def
        TrainingLoopProgress_reset_on_epoch_def BatchLoopProgress_reset_on_batch_def
        slots_rel_refl slots_rel_reset total_increment_inc [of _ Completed, simplified])
next
  case TrainResetOnEpoch
  with assms show ?thesis
    by (auto simp: totals_rel_def TrainingLoopProgress_reset_on_epoch_def
        BatchLoopProgress_reset_on_batch_def slots_rel_refl slots_rel_reset)
next
  case TrainResetOnBatch
  with assms show ?thesis
    by (auto simp: totals_rel_def TrainingLoopProgress_reset_on_batch_def
        slots_rel_refl slots_rel_reset)
next
  case BatchLoopResetOnBatch
  with assms show ?thesis
    by (auto simp: totals_rel_def BatchLoopProgress_reset_on_batch_def
        slots_rel_refl slots_rel_reset)
next
  case ValIncrementEpochCompleted
  with assms show ?thesis
    by (auto simp: totals_rel_def LoopProgress_increment_epoch_completed_def
        LoopProgress_reset_on_epoch_def slots_rel_refl
        total_increment_inc [of _ Completed, simplified])
next
  case ValResetOnEpoch
  with assms show ?thesis
    by (auto simp: totals_rel_def LoopProgress_reset_on_epoch_def slots_rel_refl)
qed

lemma fit_step_reset:
  assumes "fit_step s x = Inr s'" and "is_reset x"
  shows "totals_rel (=) s s'"
  using assms
  by (cases x)
     (auto simp: totals_rel_def TrainingLoopProgress_reset_on_epoch_def
        TrainingLoopProgress_reset_on_batch_def BatchLoopProgress_reset_on_batch_def
        LoopProgress_reset_on_epoch_def slots_rel_refl slots_rel_reset)


lemma slot_totals_le_trans:
  "slot_totals_rel tracker_le a b \<Longrightarrow> slot_totals_rel tracker_le b c \<Longrightarrow>
     slot_totals_rel tracker_le a c"
  unfolding slot_totals_rel_def by (blast intro: tracker_le_trans)

lemma slots_le_trans:
  "list_all2 (slot_totals_rel tracker_le) xs ys \<Longrightarrow>
   list_all2 (slot_totals_rel tracker_le) ys zs \<Longrightarrow>
   list_all2 (slot_totals_rel tracker_le) xs zs"
  by (rule list_all2_trans [OF slot_totals_le_trans])

lemma totals_le_trans:
  "totals_rel tracker_le a b \<Longrightarrow> totals_rel tracker_le b c \<Longrightarrow> totals_rel tracker_le a c"
  unfolding totals_rel_def by (blast intro: tracker_le_trans slots_le_trans)

lemma totals_le_refl: "totals_rel tracker_le s s"
  by (simp add: totals_rel_def slots_rel_refl)

lemma slot_totals_inc_le:
  "slot_totals_rel tracker_inc a b \<Longrightarrow> slot_totals_rel tracker_le a b"
  by (simp add: slot_totals_rel_def tracker_inc_le)

lemma totals_inc_le: "totals_rel tracker_inc s s' \<Longrightarrow> totals_rel tracker_le s s'"
  unfolding totals_rel_def
  by (auto intro: tracker_inc_le list_all2_mono slot_totals_inc_le)

lemma fit_run_le: "fit_run s xs = Inr s' \<Longrightarrow> totals_rel tracker_le s s'"
proof (induction xs arbitrary: s)
  case Nil
  then show ?case by (simp add: totals_le_refl)
next
  case (Cons x xs)
  from Cons.prems obtain m where m: "fit_step s x = Inr m" and r: "fit_run m xs = Inr s'"
    by (auto split: sum.splits)
  from m have "totals_rel tracker_le s m"
    by (intro totals_inc_le fit_step_inc)
  moreover from r have "totals_rel tracker_le m s'" by (rule Cons.IH)
  ultimately show ?case by (rule totals_le_trans)
qed

text \<open>
  Claim C7. Along every sequence of the public operations on a FitLoopProgress and its
  parts (the increments of any Progress, \<open>increment_epoch_completed\<close>,
  \<open>reset_on_epoch\<close>, \<open>reset_on_batch\<close>) that runs without an exception, every counter of
  every \<open>total\<close> tracker keeps its enabled state and never decreases; a single operation
  leaves each such counter as it was or adds 1 to it, and a reset operation leaves every
  \<open>total\<close> tracker as it was.
\<close>

theorem totals_never_decrease:
  "(fit_run s xs = Inr s' \<longrightarrow> totals_rel tracker_le s s')
   \<and> (fit_step s x = Inr m \<longrightarrow> totals_rel tracker_inc s m)
   \<and> (fit_step s x = Inr m \<longrightarrow> is_reset x \<longrightarrow> totals_rel (=) s m)"
  by (simp add: fit_run_le fit_step_inc fit_step_reset)

lemmas run_defs =
  example_ops_def FitLoopProgress_default_def TrainingLoopProgress_default_def
  LoopProgress_default_def BatchLoopProgress_default_def BatchLoopProgress_init_def
  TrainingLoopProgress_increment_epoch_completed_def TrainingLoopProgress_reset_on_epoch_def
  TrainingLoopProgress_reset_on_batch_def BatchLoopProgress_reset_on_batch_def
  LoopProgress_increment_epoch_completed_def LoopProgress_reset_on_epoch_def
  reset_opt_def reset_current_def increment_started_def

theorem totals_never_decrease_witness:
  "\<not> isl (fit_run FitLoopProgress_default example_ops)
   \<and> totals_rel tracker_le FitLoopProgress_default
       (projr (fit_run FitLoopProgress_default example_ops))
   \<and> total (epoch (train (projr (fit_run FitLoopProgress_default example_ops)))) =
       Tracker_init (Some 0) (Some 0) (Some 0) (Some 2)
   \<and> total (optimizer (optimizations (batch_loop (train
        (projr (fit_run FitLoopProgress_default example_ops)))) ! 0)) =
       Tracker_init (Some 1) (Some 0) None (Some 0)
   \<and> totals_rel (=) FitLoopProgress_default
       (projr (fit_step FitLoopProgress_default TrainResetOnEpoch))"
  using totals_never_decrease [of FitLoopProgress_default example_ops
      "projr (fit_run FitLoopProgress_default example_ops)" TrainResetOnEpoch
      "projr (fit_step FitLoopProgress_default TrainResetOnEpoch)"]
  by (simp add: run_defs example_defs)


section \<open>Independence of the optimizer slots\<close>

lemma module_heap_eq:
  "module_heap =
     \<lparr>trackers =
        [Tracker_init (Some 0) (Some 0) None (Some 0), Tracker_init (Some 0) (Some 0) None (Some 0),
         Tracker_init (Some 0) None None (Some 0), Tracker_init (Some 0) None None (Some 0),
         Tracker_init (Some 0) (Some 0) None (Some 0), Tracker_init (Some 0) (Some 0) None (Some 0)],
      progresses =
        [\<lparr>total_ref = 0, current_ref = 1\<rparr>, \<lparr>total_ref = 2, current_ref = 3\<rparr>,
         \<lparr>total_ref = 4, current_ref = 5\<rparr>],
      optimization_progresses = []\<rparr>"
  by (simp add: module_heap_def class_OptimizationProgress_def store_from_defaults_def
      new_Tracker_def new_Progress_def empty_heap_def)

lemma class_defaults_eq:
  "class_defaults = \<lparr>optimizer_ref = 0, scheduler_ref = 1, zero_grad_ref = 2\<rparr>"
  by (simp add: class_defaults_def class_OptimizationProgress_def store_from_defaults_def
      new_Tracker_def new_Progress_def empty_heap_def)

lemma prefix_nth: "prefix xs ys \<Longrightarrow> i < length xs \<Longrightarrow> ys ! i = xs ! i"
  by (auto simp: prefix_def nth_append)

lemma extends_refl [simp]: "extends h h"
  by (simp add: extends_def)

lemma extends_trans: "extends a b \<Longrightarrow> extends b c \<Longrightarrow> extends a c"
  unfolding extends_def by (meson prefix_order.trans)

lemma class_ok_nth:
  assumes "class_ok h"
  shows "progresses h ! 0 = \<lparr>total_ref = 0, current_ref = 1\<rparr>"
    and "progresses h ! 1 = \<lparr>total_ref = 2, current_ref = 3\<rparr>"
    and "progresses h ! 2 = \<lparr>total_ref = 4, current_ref = 5\<rparr>"
    and "3 \<le> length (progresses h)" and "6 \<le> length (trackers h)"
  using assms by (auto simp: class_ok_def module_heap_eq prefix_def)

lemma one_iteration:
  assumes "class_ok h"
  shows "deepcopy (snd (new_OptimizationProgress h class_defaults))
           (fst (new_OptimizationProgress h class_defaults)) =
         (Suc (length (optimization_progresses h)),
          \<lparr>trackers = trackers h @
             [trackers h ! 0, trackers h ! 1, trackers h ! 2, trackers h ! 3,
              trackers h ! 4, trackers h ! 5],
           progresses = progresses h @
             [\<lparr>total_ref = length (trackers h), current_ref = length (trackers h) + 1\<rparr>,
              \<lparr>total_ref = length (trackers h) + 2, current_ref = length (trackers h) + 3\<rparr>,
              \<lparr>total_ref = length (trackers h) + 4, current_ref = length (trackers h) + 5\<rparr>],
           optimization_progresses = optimization_progresses h @
             [class_defaults,
              \<lparr>optimizer_ref = length (progresses h), scheduler_ref = length (progresses h) + 1,
               zero_grad_ref = length (progresses h) + 2\<rparr>]\<rparr>)"
proof -
  note c = class_ok_nth [OF assms]
  show ?thesis
    by (cases h)
       (use c in \<open>simp add: class_defaults_eq deepcopy_def
          deepcopy_Progress_def deepcopy_Tracker_def new_Tracker_def new_Progress_def
          new_OptimizationProgress_def nth_append\<close>)
qed

lemma extends_lengths:
  assumes "extends h h'"
  shows "length (trackers h) \<le> length (trackers h')"
    and "length (progresses h) \<le> length (progresses h')"
    and "length (optimization_progresses h) \<le> length (optimization_progresses h')"
  using assms by (auto simp: extends_def prefix_def)

lemma stable_slot:
  assumes "extends h h'" and "valid_slot h y"
  shows "valid_slot h' y" and "slot_refs h' y = slot_refs h y" and "view h' y = view h y"
proof -
  let ?opt = "optimization_progresses h ! y"
  from assms have y: "y < length (optimization_progresses h)"
    and ps: "optimizer_ref ?opt < length (progresses h)" "scheduler_ref ?opt < length (progresses h)"
      "zero_grad_ref ?opt < length (progresses h)"
    and rs: "list_all (\<lambda>r. r < length (trackers h)) (slot_refs h y)"
    by (simp_all add: valid_slot_def Let_def)
  from assms(1) y have o: "optimization_progresses h' ! y = ?opt"
    by (simp add: extends_def prefix_nth)
  from assms(1) ps have p:
    "progresses h' ! optimizer_ref ?opt = progresses h ! optimizer_ref ?opt"
    "progresses h' ! scheduler_ref ?opt = progresses h ! scheduler_ref ?opt"
    "progresses h' ! zero_grad_ref ?opt = progresses h ! zero_grad_ref ?opt"
    by (simp_all add: extends_def prefix_nth)
  show refs: "slot_refs h' y = slot_refs h y"
    by (simp add: slot_refs_def Let_def o p)
  from rs have t: "\<And>r. r \<in> set (slot_refs h y) \<Longrightarrow> trackers h' ! r = trackers h ! r"
    using assms(1) by (simp add: extends_def prefix_nth list_all_iff)
  show "view h' y = view h y"
    using t by (simp add: view_def view_Progress_def Let_def o p slot_refs_def)
  from extends_lengths [OF assms(1)] y ps rs show "valid_slot h' y"
    by (auto simp: valid_slot_def Let_def o refs list_all_iff)
qed

lemma class_ok_extends: "class_ok h \<Longrightarrow> extends h h' \<Longrightarrow> class_ok h'"
  unfolding class_ok_def extends_def
  by (meson prefix_order.trans prefix_length_le le_trans)

lemma class_view_extends:
  assumes "class_ok h" and "extends h h'"
  shows "class_view h' = class_view h"
proof -
  note c = class_ok_nth [OF assms(1)]
  note c' = class_ok_nth [OF class_ok_extends [OF assms]]
  have t: "trackers h' ! r = trackers h ! r" if "r < 6" for r
    using assms(2) c(5) that by (simp add: extends_def prefix_nth)
  have "view_Progress h' p = view_Progress h p" if "p \<in> {0, 1, 2}" for p
    using that c(1-3) c'(1-3) by (auto simp: view_Progress_def t)
  then show ?thesis
    by (simp add: class_view_def class_defaults_eq)
qed



lemma post_init_loop_slots:
  assumes "class_ok h" and "post_init_loop k h = (ys, h')"
  shows "extends h h' \<and> length ys = k \<and> list_all (fresh h h') ys \<and>
         distinct (concat (map (slot_refs h') ys))"
  using assms
proof (induction k arbitrary: h ys h')
  case 0
  then show ?case by simp
next
  case (Suc k)
  let ?T = "length (trackers h)"
  let ?y = "Suc (length (optimization_progresses h))"
  define h2 where "h2 = snd (deepcopy (snd (new_OptimizationProgress h class_defaults))
                               (fst (new_OptimizationProgress h class_defaults)))"
  note it = one_iteration [OF Suc.prems(1)]
  note c = class_ok_nth [OF Suc.prems(1)]
  have h2: "trackers h2 = trackers h @
             [trackers h ! 0, trackers h ! 1, trackers h ! 2, trackers h ! 3,
              trackers h ! 4, trackers h ! 5]"
    "progresses h2 = progresses h @
             [\<lparr>total_ref = ?T, current_ref = ?T + 1\<rparr>,
              \<lparr>total_ref = ?T + 2, current_ref = ?T + 3\<rparr>,
              \<lparr>total_ref = ?T + 4, current_ref = ?T + 5\<rparr>]"
    "optimization_progresses h2 = optimization_progresses h @
             [class_defaults,
              \<lparr>optimizer_ref = length (progresses h), scheduler_ref = length (progresses h) + 1,
               zero_grad_ref = length (progresses h) + 2\<rparr>]"
    unfolding h2_def it by simp_all
  from Suc.prems(2) obtain zs where ys: "ys = ?y # zs" and rest: "post_init_loop k h2 = (zs, h')"
    by (auto simp: h2_def it case_prod_beta Let_def)
  have e12: "extends h h2"
    by (simp add: extends_def h2)
  have ok2: "class_ok h2"
    using Suc.prems(1) e12 by (rule class_ok_extends)
  have cv2: "class_view h2 = class_view h"
    using Suc.prems(1) e12 by (rule class_view_extends)
  from Suc.IH [OF ok2 rest] have e23: "extends h2 h'" and len: "length zs = k"
    and fr: "list_all (fresh h2 h') zs" and dis: "distinct (concat (map (slot_refs h') zs))"
    by simp_all
  have refs2: "slot_refs h2 ?y = [?T, ?T + 1, ?T + 2, ?T + 3, ?T + 4, ?T + 5]"
    by (simp add: slot_refs_def h2 nth_append)
  have valid2: "valid_slot h2 ?y"
    by (simp add: valid_slot_def refs2) (simp add: h2 nth_append)
  have view2: "view h2 ?y = class_view h"
    using c by (simp add: view_def view_Progress_def h2 nth_append class_view_def
        class_defaults_eq)
  note st = stable_slot [OF e23 valid2]
  have fy: "fresh h h' ?y"
    by (simp add: fresh_def st refs2 view2)
  have above: "?T + 6 \<le> r" if "z \<in> set zs" and "r \<in> set (slot_refs h' z)" for z r
  proof -
    from fr that have "length (trackers h2) \<le> r"
      by (auto simp: list_all_iff fresh_def)
    then show ?thesis by (simp add: h2)
  qed
  have fz: "list_all (fresh h h') zs"
    unfolding list_all_iff fresh_def
  proof (intro ballI conjI)
    fix z assume z: "z \<in> set zs"
    with fr cv2 show "valid_slot h' z" and "view h' z = class_view h"
      by (simp_all add: list_all_iff fresh_def)
    fix r assume "r \<in> set (slot_refs h' z)"
    with above [OF z] show "?T \<le> r" by fastforce
  qed
  have sep: "set (slot_refs h' ?y) \<inter> set (concat (map (slot_refs h') zs)) = {}"
  proof -
    have "r \<notin> set (slot_refs h' ?y)" if "z \<in> set zs" and "r \<in> set (slot_refs h' z)" for z r
      using above [OF that] by (simp add: st refs2)
    then show ?thesis by auto
  qed
  have "distinct (slot_refs h' ?y)"
    by (simp add: st refs2)
  with dis sep have "distinct (concat (map (slot_refs h') ys))"
    by (simp add: ys)
  moreover from e12 e23 have "extends h h'" by (rule extends_trans)
  ultimately show ?case using len fy fz by (simp add: ys)
qed

lemma store_reset_frame:
  shows "progresses (store_reset h t) = progresses h"
    and "optimization_progresses (store_reset h t) = optimization_progresses h"
    and "length (trackers (store_reset h t)) = length (trackers h)"
    and "r \<noteq> t \<Longrightarrow> trackers (store_reset h t) ! r = trackers h ! r"
  by (simp_all add: store_reset_def)

lemma store_setattr_frame:
  shows "progresses (store_setattr h t key v) = progresses h"
    and "optimization_progresses (store_setattr h t key v) = optimization_progresses h"
    and "length (trackers (store_setattr h t key v)) = length (trackers h)"
    and "r \<noteq> t \<Longrightarrow> trackers (store_setattr h t key v) ! r = trackers h ! r"
  by (simp_all add: store_setattr_def)

lemma add_one_frame:
  shows "progresses (add_one F h t) = progresses h"
    and "optimization_progresses (add_one F h t) = optimization_progresses h"
    and "length (trackers (add_one F h t)) = length (trackers h)"
    and "r \<noteq> t \<Longrightarrow> trackers (add_one F h t) ! r = trackers h ! r"
  by (simp_all add: add_one_def)

lemma store_increment_frame:
  shows "progresses (store_increment F h p) = progresses h"
    and "optimization_progresses (store_increment F h p) = optimization_progresses h"
    and "length (trackers (store_increment F h p)) = length (trackers h)"
    and "r \<noteq> total_ref (progresses h ! p) \<Longrightarrow> r \<noteq> current_ref (progresses h ! p) \<Longrightarrow>
           trackers (store_increment F h p) ! r = trackers h ! r"
  by (simp_all add: store_increment_def Let_def add_one_frame)

lemma part_refs_in_slot:
  "total_ref (progresses h ! part_ref q (optimization_progresses h ! y)) \<in> set (slot_refs h y)
   \<and> current_ref (progresses h ! part_ref q (optimization_progresses h ! y)) \<in> set (slot_refs h y)"
  by (cases q) (simp_all add: slot_refs_def Let_def)


lemma mutate_frame:
  shows "progresses (mutate h y m) = progresses h"
    and "optimization_progresses (mutate h y m) = optimization_progresses h"
    and "length (trackers (mutate h y m)) = length (trackers h)"
    and "r \<notin> set (slot_refs h y) \<Longrightarrow> trackers (mutate h y m) ! r = trackers h ! r"
proof -
  show "progresses (mutate h y m) = progresses h"
    by (cases m) (simp_all add: store_increment_frame store_reset_frame store_setattr_frame)
  show "optimization_progresses (mutate h y m) = optimization_progresses h"
    by (cases m) (simp_all add: store_increment_frame store_reset_frame store_setattr_frame)
  show "length (trackers (mutate h y m)) = length (trackers h)"
    by (cases m) (simp_all add: store_increment_frame store_reset_frame store_setattr_frame)
  assume r: "r \<notin> set (slot_refs h y)"
  have "r \<noteq> total_ref (progresses h ! part_ref q (optimization_progresses h ! y))"
       "r \<noteq> current_ref (progresses h ! part_ref q (optimization_progresses h ! y))" for q
    using r part_refs_in_slot [of h q y] by auto
  then show "trackers (mutate h y m) ! r = trackers h ! r"
    by (cases m) (simp_all add: store_increment_frame store_reset_frame store_setattr_frame)
qed

lemma slot_refs_cong:
  "progresses h' = progresses h \<Longrightarrow> optimization_progresses h' = optimization_progresses h \<Longrightarrow>
     slot_refs h' z = slot_refs h z"
  by (simp add: slot_refs_def)



lemma mutate_all_frame:
  shows "progresses (mutate_all h y ms) = progresses h"
    and "optimization_progresses (mutate_all h y ms) = optimization_progresses h"
    and "length (trackers (mutate_all h y ms)) = length (trackers h)"
    and "r \<notin> set (slot_refs h y) \<Longrightarrow> trackers (mutate_all h y ms) ! r = trackers h ! r"
proof -
  have "progresses (mutate_all h y ms) = progresses h
    \<and> optimization_progresses (mutate_all h y ms) = optimization_progresses h
    \<and> length (trackers (mutate_all h y ms)) = length (trackers h)
    \<and> (r \<notin> set (slot_refs h y) \<longrightarrow> trackers (mutate_all h y ms) ! r = trackers h ! r)"
    unfolding mutate_all_def
  proof (induction ms arbitrary: h)
    case Nil
    show ?case by simp
  next
    case (Cons m ms)
    let ?h = "mutate h y m"
    have refs: "slot_refs ?h y = slot_refs h y"
      by (rule slot_refs_cong) (rule mutate_frame)+
    have step: "progresses ?h = progresses h"
      "optimization_progresses ?h = optimization_progresses h"
      "length (trackers ?h) = length (trackers h)"
      by (rule mutate_frame)+
    have t: "trackers ?h ! r = trackers h ! r" if "r \<notin> set (slot_refs h y)"
      using that by (rule mutate_frame)
    from Cons.IH [of ?h] show ?case
      unfolding foldl_Cons refs step by (auto simp: t)
  qed
  then show "progresses (mutate_all h y ms) = progresses h"
    and "optimization_progresses (mutate_all h y ms) = optimization_progresses h"
    and "length (trackers (mutate_all h y ms)) = length (trackers h)"
    and "r \<notin> set (slot_refs h y) \<Longrightarrow> trackers (mutate_all h y ms) ! r = trackers h ! r"
    by simp_all
qed

lemma distinct_concat_nth:
  "distinct (concat xss) \<Longrightarrow> i < length xss \<Longrightarrow> j < length xss \<Longrightarrow> i \<noteq> j \<Longrightarrow>
     set (xss ! i) \<inter> set (xss ! j) = {}"
proof (induction xss arbitrary: i j)
  case Nil
  then show ?case by simp
next
  case (Cons xs xss)
  show ?case
  proof (cases i)
    case 0
    with Cons.prems obtain j' where "j = Suc j'" "j' < length xss"
      by (cases j) auto
    with 0 Cons.prems(1) show ?thesis by (auto simp: disjoint_iff)
  next
    case (Suc i')
    show ?thesis
    proof (cases j)
      case 0
      with Suc Cons.prems show ?thesis by (auto simp: disjoint_iff)
    next
      case (Suc j')
      with \<open>i = Suc i'\<close> Cons.prems Cons.IH [of i' j'] show ?thesis by simp
    qed
  qed
qed


text \<open>
  A Progress whose \<open>total\<close> and \<open>current\<close> are one Tracker object is outside the value
  model: there an increment adds 2 to the counter.
\<close>

lemma aliased_increment_counts_twice:
  assumes "progresses h ! p = \<lparr>total_ref = t, current_ref = t\<rparr>"
    and "t < length (trackers h)" and "counter_of F (trackers h ! t) = Some a"
  shows "counter_of F (trackers (store_increment F h p) ! t) = Some (a + 2)"
  using assms by (simp add: store_increment_def add_one_def)



lemma store_Progress_init_extends: "extends h (snd (store_Progress_init h))"
  by (simp add: store_Progress_init_def new_Tracker_def new_Progress_def extends_def)

lemma class_ok_mutate_all: "class_ok h \<Longrightarrow> class_ok (mutate_all h y ms)"
  by (simp add: class_ok_def mutate_all_frame)

text \<open>
  The slots of a BatchLoopProgress constructed in any store \<open>h0\<close> that is \<open>class_ok\<close>.
\<close>

lemma constructed_slots:
  assumes "class_ok h0"
    and "store_BatchLoopProgress_init h0 n = (B, h)"
  shows "extends h0 h" and "length (optimizations_refs B) = nat n"
    and "i < nat n \<Longrightarrow> valid_slot h (optimizations_refs B ! i)"
    and "i < nat n \<Longrightarrow> view h (optimizations_refs B ! i) = class_view h0"
    and "i < nat n \<Longrightarrow> distinct (slot_refs h (optimizations_refs B ! i))"
    and "i < nat n \<Longrightarrow> j < nat n \<Longrightarrow> i \<noteq> j \<Longrightarrow>
           set (slot_refs h (optimizations_refs B ! j)) \<inter>
           set (slot_refs h (optimizations_refs B ! i)) = {}"
proof -
  define h1 where "h1 = snd (store_Progress_init h0)"
  define ys where "ys = fst (post_init_loop (nat n) h1)"
  from assms(2) have B: "optimizations_refs B = ys" and h: "h = snd (post_init_loop (nat n) h1)"
    by (auto simp: store_BatchLoopProgress_init_def case_prod_beta ys_def h1_def)
  have e01: "extends h0 h1"
    unfolding h1_def by (rule store_Progress_init_extends)
  have ok1: "class_ok h1"
    using assms(1) e01 by (rule class_ok_extends)
  have cv1: "class_view h1 = class_view h0"
    using assms(1) e01 by (rule class_view_extends)
  have "post_init_loop (nat n) h1 = (ys, h)"
    by (simp add: ys_def h)
  with ok1 have e1: "extends h1 h" and len: "length ys = nat n" and fr: "list_all (fresh h1 h) ys"
    and dis: "distinct (concat (map (slot_refs h) ys))"
    using post_init_loop_slots by blast+
  from e01 e1 show "extends h0 h" by (rule extends_trans)
  from len show "length (optimizations_refs B) = nat n" by (simp add: B)
  show "valid_slot h (optimizations_refs B ! i)" if "i < nat n"
    using fr that len by (simp add: list_all_length fresh_def B)
  show "view h (optimizations_refs B ! i) = class_view h0" if "i < nat n"
    using fr that len cv1 by (simp add: list_all_length fresh_def B)
  show "distinct (slot_refs h (optimizations_refs B ! i))" if "i < nat n"
  proof -
    from that len have "slot_refs h (ys ! i) \<in> set (map (slot_refs h) ys)" by simp
    with dis show ?thesis unfolding B by (meson distinct_concat_iff)
  qed
  show "set (slot_refs h (optimizations_refs B ! j)) \<inter>
        set (slot_refs h (optimizations_refs B ! i)) = {}"
    if "i < nat n" "j < nat n" "i \<noteq> j"
    using distinct_concat_nth [OF dis, of j i] that len by (simp add: B)
qed

text \<open>
  Every operation of the store keeps it \<open>class_ok\<close>, and the store of the import is:
  so is every store that a program reaches.
\<close>

lemma class_ok_preserved:
  assumes "class_ok h"
  shows "class_ok (snd (new_Tracker h t))"
    and "class_ok (snd (new_Progress h p))"
    and "class_ok (snd (new_OptimizationProgress h opt))"
    and "class_ok (snd (store_Progress_init h))"
    and "class_ok (snd (store_BatchLoopProgress_init h n))"
    and "class_ok (store_reset h r)"
    and "class_ok (store_setattr h r key v)"
    and "class_ok (store_increment F h r)"
    and "class_ok (mutate h y m)"
proof -
  show "class_ok (snd (new_Tracker h t))"
    using assms by (rule class_ok_extends) (simp add: new_Tracker_def extends_def)
  show "class_ok (snd (new_Progress h p))"
    using assms by (rule class_ok_extends) (simp add: new_Progress_def extends_def)
  show "class_ok (snd (new_OptimizationProgress h opt))"
    using assms by (rule class_ok_extends) (simp add: new_OptimizationProgress_def extends_def)
  show "class_ok (snd (store_Progress_init h))"
    using assms store_Progress_init_extends by (rule class_ok_extends)
  have "store_BatchLoopProgress_init h n =
      (fst (store_BatchLoopProgress_init h n), snd (store_BatchLoopProgress_init h n))"
    by simp
  with assms have "extends h (snd (store_BatchLoopProgress_init h n))"
    by (rule constructed_slots(1))
  with assms show "class_ok (snd (store_BatchLoopProgress_init h n))"
    by (rule class_ok_extends)
  show "class_ok (store_reset h r)"
    using assms by (simp add: class_ok_def store_reset_frame)
  show "class_ok (store_setattr h r key v)"
    using assms by (simp add: class_ok_def store_setattr_frame)
  show "class_ok (store_increment F h r)"
    using assms by (simp add: class_ok_def store_increment_frame)
  show "class_ok (mutate h y m)"
    using assms by (simp add: class_ok_def mutate_frame)
qed




text \<open>
  Without the copy the slots would share their counters: two OptimizationProgress
  objects created one after the other hold the same three Progress objects, and an
  increment through the first is seen through the second.
\<close>

lemma instances_share_class_defaults:
  "(let (x, h1) = new_OptimizationProgress module_heap class_defaults;
        (y, h2) = new_OptimizationProgress h1 class_defaults
    in ready (total (optimizer (view (mutate h2 x (Inc Optimizer Ready)) y)))) = Some 1"
  by (simp add: module_heap_eq class_defaults_eq new_OptimizationProgress_def view_def
      view_Progress_def store_increment_def add_one_def Tracker_init_def)



section \<open>Properties of the unwrap functions\<close>

text \<open>
  Claim C9, as the code has it. There are two unwrap functions, one for each backend.
  The sharded one replaces a sharded-data-parallel wrapper by its inner module; the
  fully-sharded one replaces a fully-sharded-data-parallel wrapper by its inner module
  and then a flattened-parameters wrapper by its inner module. Each hands the result to
  the base unwrapper and returns what that returns. So each agrees with the base
  unwrapper applied to the three-step chain on the models of its own backend (the
  fully-sharded one when the model is no sharded wrapper, the sharded one when the
  module under the sharded wrapper is neither of the other two wrappers), and a model
  that is no wrapper comes back unchanged when the base unwrapper leaves it unchanged.
\<close>

theorem unwrap_variants:
  "unwrap_lightning_module_sharded base model = base (strip_sharded model)
   \<and> unwrap_lightning_module_full_sharded base model =
       base (strip_flatten (strip_full_sharded model))
   \<and> (\<not> is_sharded model \<longrightarrow>
        unwrap_lightning_module_full_sharded base model = base (spec_unwrap model))
   \<and> (\<not> is_full_sharded_or_flatten (strip_sharded model) \<longrightarrow>
        unwrap_lightning_module_sharded base model = base (spec_unwrap model))
   \<and> (base (Other x) = Other x \<longrightarrow>
        unwrap_lightning_module_sharded base (Other x) = Other x
        \<and> unwrap_lightning_module_full_sharded base (Other x) = Other x)"
proof -
  have a: "unwrap_lightning_module_sharded base model = base (strip_sharded model)"
    by (cases model) (simp_all add: unwrap_lightning_module_sharded_def)
  have b: "unwrap_lightning_module_full_sharded base model =
             base (strip_flatten (strip_full_sharded model))"
    by (cases model; cases "strip_full_sharded model")
       (simp_all add: unwrap_lightning_module_full_sharded_def)
  have c: "spec_unwrap model = strip_flatten (strip_full_sharded model)"
    if "\<not> is_sharded model"
    using that by (cases model) (simp_all add: spec_unwrap_def)
  have d: "spec_unwrap model = strip_sharded model"
    if "\<not> is_full_sharded_or_flatten (strip_sharded model)"
    using that by (cases "strip_sharded model") (simp_all add: spec_unwrap_def)
  have e: "unwrap_lightning_module_sharded base (Other x) = base (Other x)"
          "unwrap_lightning_module_full_sharded base (Other x) = base (Other x)"
    by (simp_all add: unwrap_lightning_module_sharded_def
        unwrap_lightning_module_full_sharded_def)
  show ?thesis
    using c d by (simp add: a b e)
qed

theorem unwrap_variants_witness:
  "unwrap_lightning_module_full_sharded id
     (FullyShardedDataParallel (FlattenParamsWrapper (Other ''model''))) = Other ''model''
   \<and> spec_unwrap (FullyShardedDataParallel (FlattenParamsWrapper (Other ''model''))) =
       Other ''model''
   \<and> unwrap_lightning_module_sharded id (ShardedDataParallel (Other ''model'')) = Other ''model''
   \<and> unwrap_lightning_module_sharded id (Other ''model'') = Other ''model''
   \<and> unwrap_lightning_module_full_sharded id (Other ''model'') = Other ''model''"
  using unwrap_variants [of id "FullyShardedDataParallel (FlattenParamsWrapper (Other ''model''))"
      "''model''"]
    unwrap_variants [of id "ShardedDataParallel (Other ''model'')" "''model''"]
  by (simp add: spec_unwrap_def)

text \<open>
  A sharded wrapper around a fully-sharded wrapper around a model, with a base unwrapper
  that returns its argument: the three-step chain gives the model, the sharded function
  stops at the fully-sharded wrapper and the fully-sharded function removes nothing.
\<close>

theorem unwrap_chain_counterexample:
  "spec_unwrap (ShardedDataParallel (FullyShardedDataParallel (Other ''model''))) =
     Other ''model''
   \<and> unwrap_lightning_module_sharded id
       (ShardedDataParallel (FullyShardedDataParallel (Other ''model''))) =
       FullyShardedDataParallel (Other ''model'')
   \<and> unwrap_lightning_module_full_sharded id
       (ShardedDataParallel (FullyShardedDataParallel (Other ''model''))) =
       ShardedDataParallel (FullyShardedDataParallel (Other ''model''))"
  by (simp add: spec_unwrap_def unwrap_lightning_module_sharded_def
      unwrap_lightning_module_full_sharded_def)

end
